theory Spec2Isabelle
  imports Complex_Main "HOL-Library.Sublist" "HOL-Library.Log_Nat"
begin

section \<open>Python text\<close>

text \<open>
  A Python \<open>str\<close> is a sequence of Unicode code points. It is modelled as a list of
  natural numbers, one per code point, so that indices, slices and \<open>strip\<close> count what
  Python counts. \<open>str\<close> turns an ASCII literal into that representation.
\<close>

type_synonym pystr = "nat list"

definition str :: "string \<Rightarrow> pystr" where
  "str s = map of_char s"

text \<open>
  \<open>isspace\<close> is the whitespace set of \<open>str.strip()\<close> without argument: the code points
  for which \<open>str.isspace\<close> holds.
\<close>

definition isspace :: "nat \<Rightarrow> bool" where
  "isspace c \<longleftrightarrow>
     (9 \<le> c \<and> c \<le> 13) \<or> (28 \<le> c \<and> c \<le> 32) \<or> c = 133 \<or> c = 160 \<or> c = 5760 \<or>
     (8192 \<le> c \<and> c \<le> 8202) \<or> c = 8232 \<or> c = 8233 \<or> c = 8239 \<or> c = 8287 \<or> c = 12288"

definition strip :: "pystr \<Rightarrow> pystr" where
  "strip s = rev (dropWhile isspace (rev (dropWhile isspace s)))"

text \<open>\<open>s.startswith(p)\<close> is \<open>prefix p s\<close>.\<close>

definition startswith :: "pystr \<Rightarrow> pystr \<Rightarrow> bool" where
  "startswith s p = prefix p s"

text \<open>
  \<open>find_at sub s i\<close> scans \<open>s\<close>, whose first character has index \<open>i\<close>, for the first
  occurrence of \<open>sub\<close>; \<open>find_str sub s start\<close> is \<open>s.find(sub, start)\<close> for \<open>start \<ge> 0\<close>,
  with the sentinel \<open>-1\<close> when there is none.
\<close>

fun find_at :: "pystr \<Rightarrow> pystr \<Rightarrow> nat \<Rightarrow> int" where
  "find_at sub [] i = (if sub = [] then int i else -1)"
| "find_at sub (c # cs) i = (if prefix sub (c # cs) then int i else find_at sub cs (Suc i))"

definition find_str :: "pystr \<Rightarrow> pystr \<Rightarrow> nat \<Rightarrow> int" where
  "find_str sub s start = (if length s < start then -1 else find_at sub (drop start s) start)"

text \<open>\<open>sub in s\<close>.\<close>

definition contains :: "pystr \<Rightarrow> pystr \<Rightarrow> bool" where
  "contains sub s \<longleftrightarrow> find_str sub s 0 \<noteq> -1"

text \<open>
  \<open>s[i:j]\<close>: a negative bound counts from the end, both bounds are clamped to the
  length, and the slice is empty when the bounds cross.
\<close>

definition slice :: "pystr \<Rightarrow> int \<Rightarrow> int \<Rightarrow> pystr" where
  "slice s i j =
     (let n = int (length s);
          a = (if i < 0 then max 0 (i + n) else min i n);
          b = (if j < 0 then max 0 (j + n) else min j n)
      in take (nat (b - a)) (drop (nat a) s))"

text \<open>
  \<open>s.replace(old, new)\<close>: every non-overlapping occurrence, left to right. For an
  empty \<open>old\<close> Python inserts \<open>new\<close> before every character and at the end.
\<close>

function replace :: "pystr \<Rightarrow> pystr \<Rightarrow> pystr \<Rightarrow> pystr" where
  "replace old new [] = (if old = [] then new else [])"
| "replace old new (c # cs) =
     (if old = [] then new @ concat (map (\<lambda>x. x # new) (c # cs))
      else if prefix old (c # cs) then new @ replace old new (drop (length old) (c # cs))
      else c # replace old new cs)"
  by pat_completeness auto
termination
  by (relation "measure (\<lambda>(old, new, s). length s)") (auto simp: neq_Nil_conv)

section \<open>Fence stripping\<close>

definition fence_json :: pystr where
  "fence_json = str ''```json''"

definition fence :: pystr where
  "fence = str ''```''"

text \<open>
  The block repeated in \<open>gemini_hazard_benchmark.py\<close> (lines 93-96, 173-176, 208-211
  and 307-310), applied to the already stripped reply:
  \<^verbatim>\<open>
  if "```json" in response_text:
      start = response_text.find("```json") + 7
      end = response_text.find("```", start)
      response_text = response_text[start:end].strip()
  \<close>
\<close>

definition gemini_unfence :: "pystr \<Rightarrow> pystr" where
  "gemini_unfence response_text =
     (if contains fence_json response_text then
        (let start = find_str fence_json response_text 0 + 7;
             end = find_str fence response_text (nat start)
         in strip (slice response_text start end))
      else response_text)"

text \<open>
  The block of \<open>hazard_detection_benchmark.py\<close> (lines 85-86):
  \<^verbatim>\<open>
  if content.startswith('```json'):
      content = content.replace('```json', '').replace('```', '').strip()
  \<close>
\<close>

definition openai_unfence :: "pystr \<Rightarrow> pystr" where
  "openai_unfence content =
     (if startswith content fence_json
      then strip (replace fence [] (replace fence_json [] content))
      else content)"

section \<open>Python floats\<close>

text \<open>
  A Python \<open>float\<close> is an IEEE 754 binary64 number. \<open>Finite q\<close> is the double whose
  value is the rational \<open>q\<close> (\<open>+0.0\<close> for \<open>q = 0\<close>); the other constructors are
  \<open>-0.0\<close>, the two infinities and the one not-a-number that Python distinguishes.
\<close>

datatype pyfloat = Finite rat | NegZero | PosInf | NegInf | NaN

text \<open>The integer nearest to \<open>x\<close>; a tie goes to the even neighbour.\<close>

definition round_even :: "rat \<Rightarrow> int" where
  "round_even x =
     (let f = \<lfloor>x\<rfloor>; d = x - of_int f
      in if d < 1 / 2 then f else if 1 / 2 < d then f + 1 else if even f then f else f + 1)"

text \<open>
  \<open>ilog2 q\<close> is the binary exponent of a positive \<open>q\<close>: the \<open>k\<close> with
  \<open>2 ^ k \<le> q < 2 ^ (k + 1)\<close>, read off the bit length of \<open>\<lfloor>q\<rfloor>\<close> or of
  \<open>\<lceil>1 / q\<rceil> - 1\<close>.
\<close>

definition ilog2 :: "rat \<Rightarrow> int" where
  "ilog2 q = (if 1 \<le> q then bitlen \<lfloor>q\<rfloor> - 1 else - bitlen (\<lceil>1 / q\<rceil> - 1))"

text \<open>
  Rounding of a positive rational to binary64, to nearest and ties to even: 53
  significant bits at the exponent of \<open>q\<close>, and the fixed spacing \<open>2 ^ -1074\<close> below
  the normal range. The result is \<open>0\<close> on underflow and \<open>2 ^ 1024\<close> or more on overflow.
\<close>

definition nearest :: "rat \<Rightarrow> rat" where
  "nearest q =
     (let e = max (ilog2 q - 52) (- 1074)
      in of_int (round_even (q / 2 powi e)) * 2 powi e)"

text \<open>
  The double an exact result \<open>q\<close> is rounded to by the hardware: an infinity on
  overflow, and a zero of the sign of \<open>q\<close> on underflow.
\<close>

definition round_double :: "rat \<Rightarrow> pyfloat" where
  "round_double q =
     (if q = 0 then Finite 0
      else if 0 < q then (let r = nearest q in if 2 ^ 1024 \<le> r then PosInf else Finite r)
      else (let r = nearest (- q)
            in if 2 ^ 1024 \<le> r then NegInf else if r = 0 then NegZero else Finite (- r)))"

text \<open>\<open>x + y\<close> on floats: IEEE addition. An exact sum \<open>0\<close> of two finite numbers is \<open>+0.0\<close>.\<close>

fun float_add :: "pyfloat \<Rightarrow> pyfloat \<Rightarrow> pyfloat" where
  "float_add NaN y = NaN"
| "float_add x NaN = NaN"
| "float_add PosInf NegInf = NaN"
| "float_add NegInf PosInf = NaN"
| "float_add PosInf y = PosInf"
| "float_add x PosInf = PosInf"
| "float_add NegInf y = NegInf"
| "float_add x NegInf = NegInf"
| "float_add NegZero y = y"
| "float_add x NegZero = x"
| "float_add (Finite a) (Finite b) = round_double (a + b)"

fun negative :: "pyfloat \<Rightarrow> bool" where
  "negative (Finite q) = (q < 0)"
| "negative NegZero = True"
| "negative NegInf = True"
| "negative PosInf = False"
| "negative NaN = False"

fun float_value :: "pyfloat \<Rightarrow> rat" where
  "float_value (Finite q) = q"
| "float_value f = 0"

definition is_inf :: "pyfloat \<Rightarrow> bool" where
  "is_inf f \<longleftrightarrow> f = PosInf \<or> f = NegInf"

definition is_zero :: "pyfloat \<Rightarrow> bool" where
  "is_zero f \<longleftrightarrow> f = Finite 0 \<or> f = NegZero"

text \<open>\<open>x < y\<close> on floats: false as soon as one side is not a number; the two zeros are equal.\<close>

fun float_lt :: "pyfloat \<Rightarrow> pyfloat \<Rightarrow> bool" where
  "float_lt NaN y = False"
| "float_lt x NaN = False"
| "float_lt x NegInf = False"
| "float_lt NegInf y = True"
| "float_lt PosInf y = False"
| "float_lt x PosInf = True"
| "float_lt x y = (float_value x < float_value y)"

section \<open>Python values, dictionaries and exceptions\<close>

text \<open>
  The values \<open>json.loads\<close> produces: \<open>None\<close>, booleans, integers, floats (a JSON
  number with a fraction or an exponent, and the literals \<open>NaN\<close>, \<open>Infinity\<close> and
  \<open>-Infinity\<close> that Python accepts), strings, lists and dictionaries. A dictionary is
  an association list in insertion order.
\<close>

datatype pyval =
    PNone
  | PBool bool
  | PInt int
  | PFloat pyfloat
  | PStr pystr
  | PList "pyval list"
  | PDict "(pystr \<times> pyval) list"

type_synonym dict = "(pystr \<times> pyval) list"

text \<open>\<open>d.get(k, dflt)\<close> and \<open>d[k] = v\<close> on a dictionary.\<close>

definition dget :: "dict \<Rightarrow> pystr \<Rightarrow> pyval \<Rightarrow> pyval" where
  "dget d k dflt = (case map_of d k of None \<Rightarrow> dflt | Some v \<Rightarrow> v)"

fun dset :: "dict \<Rightarrow> pystr \<Rightarrow> pyval \<Rightarrow> dict" where
  "dset [] k v = [(k, v)]"
| "dset ((k', v') # d) k v = (if k' = k then (k, v) # d else (k', v') # dset d k v)"

text \<open>Truth value of an object, as tested by \<open>if x:\<close>.\<close>

fun truthy :: "pyval \<Rightarrow> bool" where
  "truthy PNone = False"
| "truthy (PBool b) = b"
| "truthy (PInt n) = (n \<noteq> 0)"
| "truthy (PFloat f) = (\<not> is_zero f)"
| "truthy (PStr s) = (s \<noteq> [])"
| "truthy (PList xs) = (xs \<noteq> [])"
| "truthy (PDict d) = (d \<noteq> [])"

text \<open>
  An exception is its class and its message \<open>str(e)\<close>. \<open>OtherException\<close> stands for
  every other subclass of \<open>Exception\<close> (a provider or network failure, for instance).
  \<open>KeyboardInterrupt\<close> and the other exceptions outside \<open>Exception\<close> are not modelled.
\<close>

datatype exc_type =
    JSONDecodeError
  | FileNotFoundError
  | ValueError
  | AttributeError
  | TypeError
  | IndexError
  | UnboundLocalError
  | OverflowError
  | ZeroDivisionError
  | EOFError
  | OtherException

datatype exn = Exc exc_type pystr

fun exc_type_of :: "exn \<Rightarrow> exc_type" where
  "exc_type_of (Exc t m) = t"

fun exc_str :: "exn \<Rightarrow> pystr" where
  "exc_str (Exc t m) = m"

section \<open>Arithmetic on numbers\<close>

text \<open>A number is an \<open>int\<close> or a \<open>float\<close>.\<close>

datatype number = NInt int | NFloat pyfloat

text \<open>
  \<open>float(n)\<close> of an integer, as the mixed operations convert it: the nearest double,
  and \<open>OverflowError\<close> when that is beyond the largest one.
\<close>

definition float_of_int :: "int \<Rightarrow> exn + pyfloat" where
  "float_of_int n =
     (case round_double (of_int n) of
        PosInf \<Rightarrow> Inl (Exc OverflowError (str ''int too large to convert to float''))
      | NegInf \<Rightarrow> Inl (Exc OverflowError (str ''int too large to convert to float''))
      | f \<Rightarrow> Inr f)"

text \<open>\<open>x + y\<close> on numbers: exact on two integers, IEEE addition as soon as one is a float.\<close>

fun num_add :: "number \<Rightarrow> number \<Rightarrow> exn + number" where
  "num_add (NInt a) (NInt b) = Inr (NInt (a + b))"
| "num_add (NInt a) (NFloat g) =
     (case float_of_int a of Inl e \<Rightarrow> Inl e | Inr f \<Rightarrow> Inr (NFloat (float_add f g)))"
| "num_add (NFloat f) (NInt b) =
     (case float_of_int b of Inl e \<Rightarrow> Inl e | Inr g \<Rightarrow> Inr (NFloat (float_add f g)))"
| "num_add (NFloat f) (NFloat g) = Inr (NFloat (float_add f g))"

text \<open>
  \<open>a / b\<close> on two integers: the double nearest to the exact quotient, \<open>OverflowError\<close>
  when it is out of range, a zero of the sign of the quotient when \<open>a = 0\<close> or on
  underflow.
\<close>

definition int_truediv :: "int \<Rightarrow> int \<Rightarrow> exn + pyfloat" where
  "int_truediv a b =
     (if b = 0 then Inl (Exc ZeroDivisionError (str ''division by zero''))
      else if a = 0 then Inr (if b < 0 then NegZero else Finite 0)
      else
        (case round_double (of_int a / of_int b) of
           PosInf \<Rightarrow> Inl (Exc OverflowError (str ''integer division result too large for a float''))
         | NegInf \<Rightarrow> Inl (Exc OverflowError (str ''integer division result too large for a float''))
         | f \<Rightarrow> Inr f))"

text \<open>\<open>x / y\<close> on two floats: \<open>ZeroDivisionError\<close> on a zero divisor, IEEE division otherwise.\<close>

definition float_truediv :: "pyfloat \<Rightarrow> pyfloat \<Rightarrow> exn + pyfloat" where
  "float_truediv x y =
     (if is_zero y then Inl (Exc ZeroDivisionError (str ''float division by zero''))
      else if x = NaN \<or> y = NaN then Inr NaN
      else if is_inf x \<and> is_inf y then Inr NaN
      else if is_inf x then Inr (if negative x \<noteq> negative y then NegInf else PosInf)
      else if is_inf y \<or> is_zero x
        then Inr (if negative x \<noteq> negative y then NegZero else Finite 0)
      else Inr (round_double (float_value x / float_value y)))"

fun truediv :: "number \<Rightarrow> number \<Rightarrow> exn + pyfloat" where
  "truediv (NInt a) (NInt b) = int_truediv a b"
| "truediv (NInt a) (NFloat g) =
     (case float_of_int a of Inl e \<Rightarrow> Inl e | Inr f \<Rightarrow> float_truediv f g)"
| "truediv (NFloat f) (NInt b) =
     (case float_of_int b of Inl e \<Rightarrow> Inl e | Inr g \<Rightarrow> float_truediv f g)"
| "truediv (NFloat f) (NFloat g) = float_truediv f g"

text \<open>\<open>x > y\<close> on numbers; an integer and a float are compared by their exact values.\<close>

fun num_gt :: "number \<Rightarrow> number \<Rightarrow> bool" where
  "num_gt (NInt a) (NInt b) = (b < a)"
| "num_gt (NInt a) (NFloat g) = float_lt g (Finite (of_int a))"
| "num_gt (NFloat f) (NInt b) = float_lt (Finite (of_int b)) f"
| "num_gt (NFloat f) (NFloat g) = float_lt g f"

section \<open>The environment\<close>

text \<open>
  Everything the two benchmark classes reach outside themselves is a field of the
  environment: the file system, the console, the two model providers and the library
  functions \<open>json.loads\<close>, \<open>base64.b64encode\<close>, \<open>str()\<close> of an object that is not a
  string, \<open>str.lower\<close>, \<open>str.upper\<close>, and the text of the message the interpreter
  gives an exception it raises itself. The \<open>k\<close>-th console read and the \<open>k\<close>-th call of
  the Gemini model may each answer or raise.
\<close>

type_synonym bytes = "nat list"

record request =
  prompt :: pystr
  image :: "(pystr \<times> bytes) option"

record chat_request =
  system_content :: pystr
  user_text :: pystr
  image_url :: pystr

record chat_response =
  content :: "pystr option"
  created :: int
  model :: pystr
  prompt_tokens :: int
  completion_tokens :: int
  total_tokens :: int

record world =
  path_exists :: "pystr \<Rightarrow> bool"
  read_bytes :: "pystr \<Rightarrow> exn + bytes"
  console :: "nat \<Rightarrow> exn + pystr"
  generate_content :: "nat \<Rightarrow> request \<Rightarrow> exn + pystr"
  chat_create :: "chat_request \<Rightarrow> exn + chat_response"
  b64encode :: "bytes \<Rightarrow> pystr"
  json_loads :: "pystr \<Rightarrow> exn + pyval"
  py_repr :: "pyval \<Rightarrow> pystr"
  str_lower :: "pystr \<Rightarrow> pystr"
  str_upper :: "pystr \<Rightarrow> pystr"
  fault_text :: "exc_type \<Rightarrow> pyval \<Rightarrow> pystr"

text \<open>
  The state of a run: the requests sent to the Gemini model so far, in order, and the
  number of console reads so far.
\<close>

record state =
  calls :: "request list"
  reads :: nat

definition input :: "world \<Rightarrow> state \<Rightarrow> state \<times> (exn + pystr)" where
  "input w st = (st\<lparr>reads := Suc (reads st)\<rparr>, console w (reads st))"

definition call_model :: "world \<Rightarrow> state \<Rightarrow> request \<Rightarrow> state \<times> (exn + pystr)" where
  "call_model w st req =
     (st\<lparr>calls := calls st @ [req]\<rparr>, generate_content w (length (calls st)) req)"

text \<open>\<open>f"{v}"\<close>: a string is inserted as it is, any other object through \<open>str()\<close>.\<close>

definition fmt :: "world \<Rightarrow> pyval \<Rightarrow> pystr" where
  "fmt w v = (case v of PStr s \<Rightarrow> s | _ \<Rightarrow> py_repr w v)"

text \<open>The exception of \<open>v.name\<close> or \<open>v[k] = x\<close> on an object \<open>v\<close> that has no such operation.\<close>

definition fault :: "world \<Rightarrow> exc_type \<Rightarrow> pyval \<Rightarrow> exn" where
  "fault w t v = Exc t (fault_text w t v)"

definition endswith :: "pystr \<Rightarrow> pystr \<Rightarrow> bool" where
  "endswith s p = suffix p s"

section \<open>The Gemini benchmark\<close>

subsection \<open>Prompts\<close>

definition system_prompt :: "pystr" where
  \<open>system_prompt =
     str ''You are an expert factory safety inspector analyzing hazard photos.\<newline>'' @
     str ''\<newline>'' @
     str ''ANALYSIS FOCUS:\<newline>'' @
     str ''- Identify visible safety issues/hazards (electrical, mechanical, chemical, ergonomic, etc.)\<newline>'' @
     str ''- Determine specific location within the facility \<newline>'' @
     str ''- Note severity and immediate risks\<newline>'' @
     str ''- Suggest corrective actions\<newline>'' @
     str ''\<newline>'' @
     str ''CONFIDENCE RULES:\<newline>'' @
     str ''- High confidence (>80%): Clear, obvious hazards with sufficient detail\<newline>'' @
     str ''- Medium confidence (50-80%): Some uncertainty about specifics\<newline>'' @
     str ''- Low confidence (<50%): Unclear image, missing context, or ambiguous hazards\<newline>'' @
     str ''\<newline>'' @
     str ''OUTPUT REQUIREMENTS:\<newline>'' @
     str ''- Be specific and safety-focused\<newline>'' @
     str ''- Use technical safety terminology when appropriate\<newline>'' @
     str ''- Consider immediate vs long-term risks\<newline>'' @
     str ''- Prioritize worker safety above all else\<newline>'' @
     str ''\<newline>'' @
     str ''RESPONSE FORMAT: Always return valid JSON only.''\<close>

definition ai_prompt :: "pystr \<Rightarrow> pystr \<Rightarrow> pystr \<Rightarrow> pystr" where
  \<open>ai_prompt user_issue user_location user_note =
     system_prompt @
     str ''\<newline>'' @
     str ''\<newline>'' @
     str ''USER PROVIDED INFORMATION:\<newline>'' @
     str ''- Issue: '' @
     user_issue @
     str ''\<newline>'' @
     str ''- Location: '' @
     user_location @
     str ''  \<newline>'' @
     str ''- Note: '' @
     user_note @
     str ''\<newline>'' @
     str ''\<newline>'' @
     str ''TASK: Based on the user's input and your analysis of this image, provide a comprehensive safety assessment.\<newline>'' @
     str ''\<newline>'' @
     str ''OUTPUT FORMAT (JSON only):\<newline>'' @
     str ''{\<newline>'' @
     str ''    "issue": "detailed safety issue based on user input and image analysis",\<newline>'' @
     str ''    "location": "specific location description based on user input and image",\<newline>'' @
     str ''    "note": "comprehensive safety assessment and recommendations",\<newline>'' @
     str ''    "confidence_level": "high|medium|low",\<newline>'' @
     str ''    "capa": "corrective and preventive action recommendation"\<newline>'' @
     str ''}''\<close>

definition followup_prompt :: "pystr" where
  \<open>followup_prompt =
     system_prompt @
     str ''\<newline>'' @
     str ''\<newline>'' @
     str ''TASK: Analyze this factory image and generate ONE specific follow-up question that would help you provide a more accurate safety assessment.\<newline>'' @
     str ''\<newline>'' @
     str ''OUTPUT FORMAT (JSON only):\<newline>'' @
     str ''{\<newline>'' @
     str ''    "initial_analysis": "brief description of what you see",\<newline>'' @
     str ''    "confidence_level": "high|medium|low",\<newline>'' @
     str ''    "follow_up_question": "one specific question to improve accuracy",\<newline>'' @
     str ''    "reasoning": "why this question would help"\<newline>'' @
     str ''}''\<close>

definition final_prompt :: "pystr \<Rightarrow> pystr \<Rightarrow> pystr" where
  \<open>final_prompt question user_answer =
     system_prompt @
     str ''\<newline>'' @
     str ''\<newline>'' @
     str ''CONTEXT: You previously analyzed this image and asked: "'' @
     question @
     str ''"\<newline>'' @
     str ''USER ANSWER: "'' @
     user_answer @
     str ''"\<newline>'' @
     str ''\<newline>'' @
     str ''TASK: Now provide your final safety assessment.\<newline>'' @
     str ''\<newline>'' @
     str ''OUTPUT FORMAT (JSON only):\<newline>'' @
     str ''{\<newline>'' @
     str ''    "issue": "specific safety issue/hazard",\<newline>'' @
     str ''    "location": "specific location in facility",\<newline>'' @
     str ''    "note": "additional safety details and severity",\<newline>'' @
     str ''    "confidence_level": "high|medium|low",\<newline>'' @
     str ''    "capa": "corrective and preventive action recommendation"\<newline>'' @
     str ''}''\<close>

definition evaluation_prompt :: "pystr \<Rightarrow> pystr \<Rightarrow> pystr \<Rightarrow> pystr \<Rightarrow> pystr \<Rightarrow> pystr \<Rightarrow> pystr \<Rightarrow> pystr \<Rightarrow> pystr \<Rightarrow> pystr" where
  \<open>evaluation_prompt m1_issue m1_location m1_note m2_issue m2_location m2_note gt_issue gt_location gt_note =
     str ''You are an expert evaluator comparing two safety assessment methods against the ground truth.\<newline>'' @
     str ''\<newline>'' @
     str ''METHOD 1 RESULT:\<newline>'' @
     str ''Issue: '' @
     m1_issue @
     str ''\<newline>'' @
     str ''Location: '' @
     m1_location @
     str ''\<newline>'' @
     str ''Note: '' @
     m1_note @
     str ''\<newline>'' @
     str ''\<newline>'' @
     str ''METHOD 2 RESULT:\<newline>'' @
     str ''Issue: '' @
     m2_issue @
     str ''\<newline>'' @
     str ''Location: '' @
     m2_location @
     str ''\<newline>'' @
     str ''Note: '' @
     m2_note @
     str ''\<newline>'' @
     str ''\<newline>'' @
     str ''GROUND TRUTH (CORRECT ANSWER):\<newline>'' @
     str ''Issue: '' @
     gt_issue @
     str ''\<newline>'' @
     str ''Location: '' @
     gt_location @
     str ''\<newline>'' @
     str ''Note: '' @
     gt_note @
     str ''\<newline>'' @
     str ''\<newline>'' @
     str ''TASK: Compare each method against the ground truth and determine accuracy percentages.\<newline>'' @
     str ''\<newline>'' @
     str ''OUTPUT FORMAT (JSON only):\<newline>'' @
     str ''{\<newline>'' @
     str ''    "method1_accuracy": 85,\<newline>'' @
     str ''    "method2_accuracy": 92,\<newline>'' @
     str ''    "winner": "method1|method2|tie",\<newline>'' @
     str ''    "method1_analysis": "detailed comparison of method 1 vs ground truth",\<newline>'' @
     str ''    "method2_analysis": "detailed comparison of method 2 vs ground truth",\<newline>'' @
     str ''    "overall_assessment": "which method performed better and why"\<newline>'' @
     str ''}''\<close>

definition encode_image :: "world \<Rightarrow> pystr \<Rightarrow> exn + bytes" where
  "encode_image w image_path = read_bytes w image_path"

definition mime_type_of :: "world \<Rightarrow> pystr \<Rightarrow> pystr" where
  "mime_type_of w image_path =
     (if endswith (str_lower w image_path) (str ''.png'') then str ''image/png''
      else str ''image/jpeg'')"

text \<open>
  The reply of one call as the sites read it: \<open>response.text.strip()\<close>, the fence block,
  \<open>json.loads\<close>.
\<close>

definition gemini_extract :: "world \<Rightarrow> pystr \<Rightarrow> exn + pyval" where
  "gemini_extract w text = json_loads w (gemini_unfence (strip text))"

subsection \<open>Method 1: manual input, then one model call\<close>

text \<open>
  The body of the \<open>try\<close> of \<open>method1_manual_input_with_ai\<close> (lines 83-118). The three
  \<open>result.get\<close> of the debug prints raise \<open>AttributeError\<close> when the parsed value is
  not a dictionary. Printing itself is not modelled.
\<close>

text \<open>The request of method 1: the prompt with the three answers of the user, and the image.\<close>

definition manual_request ::
  "world \<Rightarrow> pystr \<Rightarrow> bytes \<Rightarrow> pystr \<Rightarrow> pystr \<Rightarrow> pystr \<Rightarrow> request" where
  "manual_request w image_path image_data user_issue user_location user_note =
     \<lparr>prompt = ai_prompt user_issue user_location user_note,
      image = Some (mime_type_of w image_path, image_data)\<rparr>"

definition method1_try ::
  "world \<Rightarrow> state \<Rightarrow> pystr \<Rightarrow> bytes \<Rightarrow> pystr \<Rightarrow> pystr \<Rightarrow> pystr \<Rightarrow> state \<times> (exn + dict)" where
  "method1_try w st image_path image_data user_issue user_location user_note =
     (case call_model w st
             (manual_request w image_path image_data user_issue user_location user_note) of
        (st1, Inl e) \<Rightarrow> (st1, Inl e)
      | (st1, Inr text) \<Rightarrow>
          (case gemini_extract w text of
             Inl e \<Rightarrow> (st1, Inl e)
           | Inr (PDict result) \<Rightarrow>
               (st1, Inr
                 [(str ''method'', PStr (str ''manual_input_with_ai'')),
                  (str ''user_input'', PDict
                    [(str ''issue'', PStr user_issue),
                     (str ''location'', PStr user_location),
                     (str ''note'', PStr user_note)]),
                  (str ''issue'', dget result (str ''issue'') PNone),
                  (str ''location'', dget result (str ''location'') PNone),
                  (str ''note'', dget result (str ''note'') PNone),
                  (str ''confidence_level'', dget result (str ''confidence_level'') PNone),
                  (str ''capa'', dget result (str ''capa'') (PStr [])),
                  (str ''source'', PStr (str ''ai_analysis_with_user_input''))])
           | Inr v \<Rightarrow> (st1, Inl (fault w AttributeError v))))"

text \<open>The two handlers of method 1 (lines 120-137).\<close>

definition method1_error :: "string \<Rightarrow> exn \<Rightarrow> pystr \<Rightarrow> pystr \<Rightarrow> pystr \<Rightarrow> dict" where
  "method1_error what e user_issue user_location user_note =
     [(str ''method'', PStr (str ''manual_input_with_ai'')),
      (str ''error'', PStr (str what @ exc_str e)),
      (str ''issue'', PStr (str ''Based on user input: '' @ user_issue)),
      (str ''location'', PStr user_location),
      (str ''note'', PStr user_note)]"

definition method1_except :: "exn \<Rightarrow> pystr \<Rightarrow> pystr \<Rightarrow> pystr \<Rightarrow> dict" where
  "method1_except e user_issue user_location user_note =
     (if exc_type_of e = JSONDecodeError
      then method1_error ''JSON parsing failed: '' e user_issue user_location user_note
      else method1_error ''AI analysis failed: '' e user_issue user_location user_note)"

definition method1_manual_input_with_ai ::
  "world \<Rightarrow> state \<Rightarrow> pystr \<Rightarrow> state \<times> (exn + dict)" where
  "method1_manual_input_with_ai w st image_path =
     (case input w st of
        (st1, Inl e) \<Rightarrow> (st1, Inl e)
      | (st1, Inr user_issue) \<Rightarrow>
     (case input w st1 of
        (st2, Inl e) \<Rightarrow> (st2, Inl e)
      | (st2, Inr user_location) \<Rightarrow>
     (case input w st2 of
        (st3, Inl e) \<Rightarrow> (st3, Inl e)
      | (st3, Inr user_note) \<Rightarrow>
     (case encode_image w image_path of
        Inl e \<Rightarrow> (st3, Inl e)
      | Inr image_data \<Rightarrow>
     (case method1_try w st3 image_path image_data user_issue user_location user_note of
        (st4, Inr d) \<Rightarrow> (st4, Inr d)
      | (st4, Inl e) \<Rightarrow>
          (st4, Inr (method1_except e user_issue user_location user_note)))))))"

subsection \<open>Method 2: a follow-up question, then the final call\<close>

text \<open>
  The body of the \<open>try\<close> of \<open>method2_ai_followup\<close> (lines 161-225): first call, the
  console read of the answer, second call. Both parsed replies are read with \<open>.get\<close>,
  which raises \<open>AttributeError\<close> on anything but a dictionary.
\<close>

text \<open>The two requests of method 2: each carries its prompt and the image.\<close>

definition followup_request :: "world \<Rightarrow> pystr \<Rightarrow> bytes \<Rightarrow> request" where
  "followup_request w image_path image_data =
     \<lparr>prompt = followup_prompt,
      image = Some (mime_type_of w image_path, image_data)\<rparr>"

definition final_request :: "world \<Rightarrow> pystr \<Rightarrow> bytes \<Rightarrow> dict \<Rightarrow> pystr \<Rightarrow> request" where
  "final_request w image_path image_data followup_result user_answer =
     \<lparr>prompt = final_prompt
                 (fmt w (dget followup_result (str ''follow_up_question'') (PStr [])))
                 user_answer,
      image = Some (mime_type_of w image_path, image_data)\<rparr>"

definition method2_try ::
  "world \<Rightarrow> state \<Rightarrow> pystr \<Rightarrow> bytes \<Rightarrow> state \<times> (exn + dict)" where
  "method2_try w st image_path image_data =
     (case call_model w st (followup_request w image_path image_data) of
        (st1, Inl e) \<Rightarrow> (st1, Inl e)
      | (st1, Inr text) \<Rightarrow>
     (case gemini_extract w text of
        Inl e \<Rightarrow> (st1, Inl e)
      | Inr (PDict followup_result) \<Rightarrow>
         (case input w st1 of
            (st2, Inl e) \<Rightarrow> (st2, Inl e)
          | (st2, Inr user_answer) \<Rightarrow>
         (case call_model w st2
                 (final_request w image_path image_data followup_result user_answer) of
            (st3, Inl e) \<Rightarrow> (st3, Inl e)
          | (st3, Inr final_text) \<Rightarrow>
         (case gemini_extract w final_text of
            Inl e \<Rightarrow> (st3, Inl e)
          | Inr (PDict final_result) \<Rightarrow>
              (st3, Inr
                [(str ''method'', PStr (str ''ai_followup'')),
                 (str ''follow_up_question'',
                    dget followup_result (str ''follow_up_question'') PNone),
                 (str ''user_answer'', PStr user_answer),
                 (str ''issue'', dget final_result (str ''issue'') PNone),
                 (str ''location'', dget final_result (str ''location'') PNone),
                 (str ''note'', dget final_result (str ''note'') PNone),
                 (str ''confidence_level'', dget final_result (str ''confidence_level'') PNone),
                 (str ''capa'', dget final_result (str ''capa'') (PStr [])),
                 (str ''source'', PStr (str ''ai_analysis_with_followup''))])
          | Inr v \<Rightarrow> (st3, Inl (fault w AttributeError v)))))
      | Inr v \<Rightarrow> (st1, Inl (fault w AttributeError v))))"

text \<open>The two handlers of method 2 (lines 227-248).\<close>

definition method2_error :: "string \<Rightarrow> string \<Rightarrow> exn \<Rightarrow> dict" where
  "method2_error what issue_text e =
     [(str ''method'', PStr (str ''ai_followup'')),
      (str ''error'', PStr (str what @ exc_str e)),
      (str ''confidence_level'', PStr (str ''error'')),
      (str ''issue'', PStr (str issue_text)),
      (str ''location'', PStr (str ''N/A'')),
      (str ''note'', PStr (str ''N/A''))]"

definition method2_except :: "exn \<Rightarrow> dict" where
  "method2_except e =
     (if exc_type_of e = JSONDecodeError
      then method2_error ''JSON parsing failed: '' ''AI response parsing failed'' e
      else method2_error ''AI analysis failed: '' ''AI analysis failed'' e)"

definition method2_ai_followup :: "world \<Rightarrow> state \<Rightarrow> pystr \<Rightarrow> state \<times> (exn + dict)" where
  "method2_ai_followup w st image_path =
     (case encode_image w image_path of
        Inl e \<Rightarrow> (st, Inl e)
      | Inr image_data \<Rightarrow>
     (case method2_try w st image_path image_data of
        (st1, Inr d) \<Rightarrow> (st1, Inr d)
      | (st1, Inl e) \<Rightarrow>
          (st1, Inr (method2_except e))))"

subsection \<open>Ground truth and the comparator\<close>

definition get_ground_truth :: "world \<Rightarrow> state \<Rightarrow> state \<times> (exn + dict)" where
  "get_ground_truth w st =
     (case input w st of
        (st1, Inl e) \<Rightarrow> (st1, Inl e)
      | (st1, Inr actual_issue) \<Rightarrow>
     (case input w st1 of
        (st2, Inl e) \<Rightarrow> (st2, Inl e)
      | (st2, Inr actual_location) \<Rightarrow>
     (case input w st2 of
        (st3, Inl e) \<Rightarrow> (st3, Inl e)
      | (st3, Inr actual_note) \<Rightarrow>
          (st3, Inr
            [(str ''actual_issue'', PStr actual_issue),
             (str ''actual_location'', PStr actual_location),
             (str ''actual_note'', PStr actual_note),
             (str ''source'', PStr (str ''ground_truth''))]))))"

text \<open>The record of the handler of \<open>evaluate_accuracy\<close> (lines 314-320).\<close>

definition evaluation_failed :: "exn \<Rightarrow> pyval" where
  "evaluation_failed e =
     PDict
       [(str ''error'', PStr (str ''Evaluation failed: '' @ exc_str e)),
        (str ''method1_accuracy'', PInt 0),
        (str ''method2_accuracy'', PInt 0),
        (str ''winner'', PStr (str ''error''))]"

text \<open>The request of the comparator: the prompt built from the three records, no image.\<close>

definition evaluation_request :: "world \<Rightarrow> dict \<Rightarrow> dict \<Rightarrow> dict \<Rightarrow> request" where
  "evaluation_request w m1 m2 gt =
     \<lparr>prompt = evaluation_prompt
        (fmt w (dget m1 (str ''issue'') (PStr (str ''N/A''))))
        (fmt w (dget m1 (str ''location'') (PStr (str ''N/A''))))
        (fmt w (dget m1 (str ''note'') (PStr (str ''N/A''))))
        (fmt w (dget m2 (str ''issue'') (PStr (str ''N/A''))))
        (fmt w (dget m2 (str ''location'') (PStr (str ''N/A''))))
        (fmt w (dget m2 (str ''note'') (PStr (str ''N/A''))))
        (fmt w (dget gt (str ''actual_issue'') (PStr (str ''N/A''))))
        (fmt w (dget gt (str ''actual_location'') (PStr (str ''N/A''))))
        (fmt w (dget gt (str ''actual_note'') (PStr (str ''N/A'')))),
      image = None\<rparr>"

definition evaluate_accuracy ::
  "world \<Rightarrow> state \<Rightarrow> dict \<Rightarrow> dict \<Rightarrow> dict \<Rightarrow> state \<times> pyval" where
  "evaluate_accuracy w st m1 m2 gt =
     (case call_model w st (evaluation_request w m1 m2 gt) of
        (st1, Inl e) \<Rightarrow> (st1, evaluation_failed e)
      | (st1, Inr text) \<Rightarrow>
          (case gemini_extract w text of
             Inl e \<Rightarrow> (st1, evaluation_failed e)
           | Inr v \<Rightarrow> (st1, v)))"

subsection \<open>One trial\<close>

text \<open>
  \<open>_display_results\<close> only prints, but it reads the evaluation with \<open>.get\<close>, which
  raises \<open>AttributeError\<close> when the judge's reply parsed to something that is not a
  dictionary.
\<close>

definition display_results :: "world \<Rightarrow> pyval \<Rightarrow> exn + unit" where
  "display_results w evaluation =
     (case evaluation of PDict d \<Rightarrow> Inr () | v \<Rightarrow> Inl (fault w AttributeError v))"

record trial =
  test_number :: nat
  image_path :: pystr
  method1_result :: dict
  method2_result :: dict
  ground_truth :: dict
  evaluation :: pyval

definition run_single_benchmark ::
  "world \<Rightarrow> state \<Rightarrow> pystr \<Rightarrow> nat \<Rightarrow> state \<times> (exn + trial)" where
  "run_single_benchmark w st path n =
     (if \<not> path_exists w path
      then (st, Inl (Exc FileNotFoundError (str ''Image not found: '' @ path)))
      else
     (case method1_manual_input_with_ai w st path of
        (st1, Inl e) \<Rightarrow> (st1, Inl e)
      | (st1, Inr m1) \<Rightarrow>
     (case method2_ai_followup w st1 path of
        (st2, Inl e) \<Rightarrow> (st2, Inl e)
      | (st2, Inr m2) \<Rightarrow>
     (case get_ground_truth w st2 of
        (st3, Inl e) \<Rightarrow> (st3, Inl e)
      | (st3, Inr gt) \<Rightarrow>
     (case evaluate_accuracy w st3 m1 m2 gt of
        (st4, ev) \<Rightarrow>
     (case display_results w ev of
        Inl e \<Rightarrow> (st4, Inl e)
      | Inr u \<Rightarrow>
          (st4, Inr
            \<lparr>test_number = n, image_path = path, method1_result = m1,
             method2_result = m2, ground_truth = gt, evaluation = ev\<rparr>)))))))"

subsection \<open>The full benchmark\<close>

text \<open>\<open>v.get(k, dflt)\<close> on an arbitrary object.\<close>

definition method_get :: "world \<Rightarrow> pyval \<Rightarrow> pystr \<Rightarrow> pyval \<Rightarrow> exn + pyval" where
  "method_get w v k dflt =
     (case v of PDict d \<Rightarrow> Inr (dget d k dflt) | _ \<Rightarrow> Inl (fault w AttributeError v))"

text \<open>\<open>enumerate(xs, start)\<close>.\<close>

definition enumerate_from :: "'a list \<Rightarrow> nat \<Rightarrow> (nat \<times> 'a) list" where
  "enumerate_from xs start = zip [start ..< start + length xs] xs"

text \<open>
  The loop of \<open>run_full_benchmark\<close> (lines 387-399) over the three lists \<open>results\<close>,
  \<open>method1_scores\<close> and \<open>method2_scores\<close>. Every exception of the body is caught and
  the loop goes on with the next path; what the body appended before it raised stays.
\<close>

fun run_trials ::
  "world \<Rightarrow> state \<Rightarrow> (nat \<times> pystr) list \<Rightarrow> trial list \<times> pyval list \<times> pyval list
     \<Rightarrow> state \<times> trial list \<times> pyval list \<times> pyval list" where
  "run_trials w st [] acc = (st, acc)"
| "run_trials w st ((i, path) # rest) (results, scores1, scores2) =
     (case run_single_benchmark w st path i of
        (st1, Inl e) \<Rightarrow> run_trials w st1 rest (results, scores1, scores2)
      | (st1, Inr result) \<Rightarrow>
          (case method_get w (evaluation result) (str ''method1_accuracy'') (PInt 0) of
             Inl e \<Rightarrow> run_trials w st1 rest (results @ [result], scores1, scores2)
           | Inr a1 \<Rightarrow>
               (case method_get w (evaluation result) (str ''method2_accuracy'') (PInt 0) of
                  Inl e \<Rightarrow> run_trials w st1 rest (results @ [result], scores1 @ [a1], scores2)
                | Inr a2 \<Rightarrow>
                    run_trials w st1 rest
                      (results @ [result], scores1 @ [a1], scores2 @ [a2]))))"

text \<open>
  \<open>sum(scores)\<close>: the built-in starts from the integer \<open>0\<close> and adds the items from the
  left; a boolean counts as \<open>0\<close> or \<open>1\<close>, and any object that is not a number raises
  \<open>TypeError\<close>. The additions are the plain ones of the language, in order. (CPython
  from 3.12 on adds an error compensation when it sums floats, which can change the
  last bit of a sum of floats; sums of integers are not concerned.)
\<close>

fun py_sum :: "world \<Rightarrow> pyval list \<Rightarrow> number \<Rightarrow> exn + number" where
  "py_sum w [] acc = Inr acc"
| "py_sum w (PInt n # vs) acc =
     (case num_add acc (NInt n) of Inl e \<Rightarrow> Inl e | Inr acc' \<Rightarrow> py_sum w vs acc')"
| "py_sum w (PBool b # vs) acc =
     (case num_add acc (NInt (if b then 1 else 0)) of
        Inl e \<Rightarrow> Inl e | Inr acc' \<Rightarrow> py_sum w vs acc')"
| "py_sum w (PFloat f # vs) acc =
     (case num_add acc (NFloat f) of Inl e \<Rightarrow> Inl e | Inr acc' \<Rightarrow> py_sum w vs acc')"
| "py_sum w (v # vs) acc = Inl (fault w TypeError v)"

text \<open>
  \<open>sum(scores) / len(scores) if scores else 0\<close> (lines 402-403): a float, or the
  integer \<open>0\<close> for an empty list.
\<close>

definition average :: "world \<Rightarrow> pyval list \<Rightarrow> exn + number" where
  "average w scores =
     (if scores \<noteq> [] then
        (case py_sum w scores (NInt 0) of
           Inl e \<Rightarrow> Inl e
         | Inr s \<Rightarrow>
             (case truediv s (NInt (int (length scores))) of
                Inl e \<Rightarrow> Inl e
              | Inr f \<Rightarrow> Inr (NFloat f)))
      else Inr (NInt 0))"

text \<open>
  \<open>_display_final_summary\<close> only prints; its loop reads \<open>scores2[i]\<close> for every index of
  \<open>scores1\<close>, which raises \<open>IndexError\<close> when \<open>scores2\<close> is the shorter list.
\<close>

definition display_final_summary :: "world \<Rightarrow> pyval list \<Rightarrow> pyval list \<Rightarrow> exn + unit" where
  "display_final_summary w scores1 scores2 =
     (if length scores2 < length scores1 then Inl (fault w IndexError (PList scores2))
      else Inr ())"

definition overall_winner :: "number \<Rightarrow> number \<Rightarrow> pystr" where
  "overall_winner avg_method1 avg_method2 =
     (if num_gt avg_method1 avg_method2 then str ''method1''
      else if num_gt avg_method2 avg_method1 then str ''method2''
      else str ''tie'')"

record summary =
  total_tests :: nat
  method1_average :: number
  method2_average :: number
  method1_scores :: "pyval list"
  method2_scores :: "pyval list"
  winner :: pystr

record benchmark =
  benchmark_summary :: summary
  detailed_results :: "trial list"

definition run_full_benchmark ::
  "world \<Rightarrow> state \<Rightarrow> pystr list \<Rightarrow> state \<times> (exn + benchmark)" where
  "run_full_benchmark w st image_paths =
     (if length image_paths \<noteq> 5
      then (st, Inl (Exc ValueError
                      (str ''Please provide exactly 5 image paths for the benchmark'')))
      else
     (case run_trials w st (enumerate_from image_paths 1) ([], [], []) of
        (st1, results, scores1, scores2) \<Rightarrow>
     (case average w scores1 of
        Inl e \<Rightarrow> (st1, Inl e)
      | Inr avg_method1 \<Rightarrow>
     (case average w scores2 of
        Inl e \<Rightarrow> (st1, Inl e)
      | Inr avg_method2 \<Rightarrow>
     (case display_final_summary w scores1 scores2 of
        Inl e \<Rightarrow> (st1, Inl e)
      | Inr u \<Rightarrow>
          (st1, Inr
            \<lparr>benchmark_summary =
               \<lparr>total_tests = length results,
                method1_average = avg_method1,
                method2_average = avg_method2,
                method1_scores = scores1,
                method2_scores = scores2,
                winner = overall_winner avg_method1 avg_method2\<rparr>,
             detailed_results = results\<rparr>))))))"

section \<open>The single-pass benchmark\<close>

definition openai_system_prompt :: "pystr" where
  \<open>openai_system_prompt =
     str ''You are an expert factory safety inspector analyzing hazard photos. \<newline>'' @
     str ''\<newline>'' @
     str ''Your task:\<newline>'' @
     str ''1. Identify visible safety issues/hazards\<newline>'' @
     str ''2. Propose bounding boxes for hazards (x, y, width, height as percentages 0-100)\<newline>'' @
     str ''3. Fill three fields: issue, location, note\<newline>'' @
     str ''\<newline>'' @
     str ''CONFIDENCE RULES:\<newline>'' @
     str ''- If you can clearly identify specific hazards with high confidence (>80%), provide direct answers\<newline>'' @
     str ''- If confidence is low (<80%) or critical information is missing, generate a clarifying question instead\<newline>'' @
     str ''\<newline>'' @
     str ''OUTPUT FORMAT - Always respond with valid JSON only:\<newline>'' @
     str ''{\<newline>'' @
     str ''    "confidence_level": "high|medium|low",\<newline>'' @
     str ''    "mode": "auto_fill|follow_up_question", \<newline>'' @
     str ''    "issue": "specific safety issue or null if asking question",\<newline>'' @
     str ''    "location": "specific location in facility or null if asking question", \<newline>'' @
     str ''    "note": "additional safety details or null if asking question",\<newline>'' @
     str ''    "bounding_boxes": [{"x": 0, "y": 0, "width": 0, "height": 0, "label": "hazard description"}],\<newline>'' @
     str ''    "capa": "corrective and preventive action recommendation",\<newline>'' @
     str ''    "follow_up_question": "clarifying question if mode is follow_up_question, otherwise null"\<newline>'' @
     str ''}\<newline>'' @
     str ''\<newline>'' @
     str ''Be precise and safety-focused. Only auto-fill if you're highly confident.''\<close>

text \<open>The record of the handler \<open>except Exception\<close> of \<open>analyze_hazard_image\<close> (lines 107-112).\<close>

definition api_call_failed :: "exn \<Rightarrow> dict" where
  "api_call_failed e =
     [(str ''error'', PStr (str ''API call failed: '' @ exc_str e)),
      (str ''confidence_level'', PStr (str ''error'')),
      (str ''mode'', PStr (str ''error''))]"

text \<open>The record of the handler \<open>except json.JSONDecodeError\<close> (lines 100-106).\<close>

definition json_parsing_error :: "exn \<Rightarrow> pystr \<Rightarrow> dict" where
  "json_parsing_error e raw =
     [(str ''error'', PStr (str ''JSON parsing error: '' @ exc_str e)),
      (str ''raw_response'', PStr raw),
      (str ''confidence_level'', PStr (str ''error'')),
      (str ''mode'', PStr (str ''error''))]"

text \<open>
  The reply as \<open>analyze_hazard_image\<close> reads it: \<open>content.strip()\<close>, the fence block,
  \<open>json.loads\<close>.
\<close>

definition openai_extract :: "world \<Rightarrow> pystr \<Rightarrow> exn + pyval" where
  "openai_extract w text = json_loads w (openai_unfence (strip text))"

text \<open>
  The one request of the single-pass assessor: the system prompt, the instruction and
  the image as a data URL. The fixed arguments (model name, token limit, temperature)
  are left out.
\<close>

definition analysis_request :: "world \<Rightarrow> bytes \<Rightarrow> chat_request" where
  "analysis_request w image_data =
     \<lparr>system_content = openai_system_prompt,
      user_text = str ''Analyze this factory image for safety hazards and follow the confidence-based output format.'',
      image_url = str ''data:image/jpeg;base64,'' @ b64encode w image_data\<rparr>"

text \<open>
  \<open>analyze_hazard_image\<close>. The image is read before the \<open>try\<close>, so a failure there
  propagates. Inside the \<open>try\<close>: the call, \<open>content.strip()\<close> (an \<open>AttributeError\<close>
  when the reply has no content), the fence block, \<open>json.loads\<close>, and three item
  assignments on the parsed value (a \<open>TypeError\<close> when it is not a dictionary). The
  first handler reads the local \<open>content\<close>; when the \<open>JSONDecodeError\<close> comes from the
  call itself that local is not bound yet and the handler raises.
\<close>

definition analyze_hazard_image :: "world \<Rightarrow> pystr \<Rightarrow> exn + dict" where
  "analyze_hazard_image w path =
     (case read_bytes w path of
        Inl e \<Rightarrow> Inl e
      | Inr image_data \<Rightarrow>
     (case chat_create w (analysis_request w image_data) of
        Inl e \<Rightarrow>
          (if exc_type_of e = JSONDecodeError
           then Inl (fault w UnboundLocalError (PStr (str ''content'')))
           else Inr (api_call_failed e))
      | Inr response \<Rightarrow>
     (case content response of
        None \<Rightarrow> Inr (api_call_failed (fault w AttributeError PNone))
      | Some c \<Rightarrow>
     (case openai_extract w c of
        Inl e \<Rightarrow>
          (if exc_type_of e = JSONDecodeError
           then Inr (json_parsing_error e (openai_unfence (strip c)))
           else Inr (api_call_failed e))
      | Inr (PDict result) \<Rightarrow>
          Inr (dset (dset (dset result
                 (str ''timestamp'') (PInt (created response)))
                 (str ''model'') (PStr (model response)))
                 (str ''usage'') (PDict
                    [(str ''prompt_tokens'', PInt (prompt_tokens response)),
                     (str ''completion_tokens'', PInt (completion_tokens response)),
                     (str ''total_tokens'', PInt (total_tokens response))]))
      | Inr v \<Rightarrow> Inr (api_call_failed (fault w TypeError v))))))"

text \<open>
  \<open>_print_summary\<close>: the texts of the \<open>print\<close> calls it makes, in order, and the
  exception that ended it, if any. \<open>x.upper()\<close> raises \<open>AttributeError\<close> on anything
  but a string; \<open>len(boxes)\<close> raises \<open>TypeError\<close> on an integer or a boolean; iterating
  a dictionary or a string yields strings, on which \<open>box.get\<close> raises.
\<close>

definition rule50 :: pystr where
  "rule50 = replicate 50 61"

fun print_boxes :: "world \<Rightarrow> pyval list \<Rightarrow> nat \<Rightarrow> pystr list \<times> exn option" where
  "print_boxes w [] i = ([], None)"
| "print_boxes w (PDict box # boxes) i =
     (case print_boxes w boxes (Suc i) of (out, x) \<Rightarrow>
        ((str ''  '' @ fmt w (PInt (int i)) @ str ''. '' @
          fmt w (dget box (str ''label'') (PStr (str ''Unknown''))) @ str '' - '' @
          str ''x:'' @ fmt w (dget box (str ''x'') (PInt 0)) @ str ''%, y:'' @
          fmt w (dget box (str ''y'') (PInt 0)) @ str ''%, '' @
          str ''w:'' @ fmt w (dget box (str ''width'') (PInt 0)) @ str ''%, h:'' @
          fmt w (dget box (str ''height'') (PInt 0)) @ str ''%'') # out, x))"
| "print_boxes w (v # boxes) i = ([], Some (fault w AttributeError v))"

definition boxes_header :: "world \<Rightarrow> nat \<Rightarrow> pystr" where
  "boxes_header w n =
     [10, 127919] @ str '' BOUNDING BOXES ('' @ fmt w (PInt (int n)) @ str '' detected):''"

definition print_bounding_boxes :: "world \<Rightarrow> pyval \<Rightarrow> pystr list \<times> exn option" where
  "print_bounding_boxes w boxes =
     (if \<not> truthy boxes then ([], None)
      else case boxes of
        PList bs \<Rightarrow>
          (case print_boxes w bs 1 of (out, x) \<Rightarrow> (boxes_header w (length bs) # out, x))
      | PDict d \<Rightarrow>
          ([boxes_header w (length (remdups (map fst d)))],
           Some (fault w AttributeError (PStr (fst (hd d)))))
      | PStr s \<Rightarrow> ([boxes_header w (length s)], Some (fault w AttributeError (PStr [hd s])))
      | v \<Rightarrow> ([], Some (fault w TypeError v)))"

definition print_summary :: "world \<Rightarrow> dict \<Rightarrow> pystr list \<times> exn option" where
  "print_summary w result =
     (let banner = [10 # rule50, str ''HAZARD DETECTION ANALYSIS SUMMARY'', rule50] in
      if truthy (dget result (str ''error'') PNone)
      then (banner @ [str '' ERROR: '' @ fmt w (dget result (str ''error'') PNone)], None)
      else
        (case dget result (str ''mode'') (PStr (str ''unknown'')) of
           PStr mode \<Rightarrow>
             (case dget result (str ''confidence_level'') (PStr (str ''unknown'')) of
                PStr confidence \<Rightarrow>
                  (let head = banner @ [str ''Mode: '' @ str_upper w mode,
                                        str ''Confidence: '' @ str_upper w confidence] in
                   if mode = str ''auto_fill'' then
                     (case print_bounding_boxes w (dget result (str ''bounding_boxes'') (PList [])) of
                        (out, x) \<Rightarrow>
                          (head @
                           [10 # str '' ISSUE: '' @ fmt w (dget result (str ''issue'') (PStr (str ''N/A''))),
                            str '' LOCATION: '' @ fmt w (dget result (str ''location'') (PStr (str ''N/A''))),
                            str '' NOTE: '' @ fmt w (dget result (str ''note'') (PStr (str ''N/A''))),
                            str '' CAPA: '' @ fmt w (dget result (str ''capa'') (PStr (str ''N/A'')))] @
                           out @ (if x = None then [rule50] else []), x))
                   else if mode = str ''follow_up_question'' then
                     (head @
                      [10 # str '' FOLLOW-UP QUESTION:'',
                       str ''   '' @ fmt w (dget result (str ''follow_up_question'')
                                              (PStr (str ''No question provided''))),
                       rule50], None)
                   else (head @ [rule50], None))
              | v \<Rightarrow>
                  (banner @ [str ''Mode: '' @ str_upper w mode], Some (fault w AttributeError v)))
         | v \<Rightarrow> (banner, Some (fault w AttributeError v))))"

section \<open>Fenced replies\<close>

text \<open>
  A reply that is one fenced block labelled \<open>json\<close> around a payload: the opening
  marker, a line break, the payload, a line break, the closing marker.
\<close>

definition fenced_block :: "pystr \<Rightarrow> pystr" where
  "fenced_block p = fence_json @ 10 # p @ 10 # fence"

section \<open>Scripted environments\<close>

text \<open>
  The examples below run the benchmark in an environment whose collaborators are
  scripted: which files exist, what the console answers, what the model replies and
  what \<open>json.loads\<close> makes of a text. Files are empty, objects print as the empty
  text and the case conversions leave a text as it is.
\<close>

definition scripted ::
  "(pystr \<Rightarrow> bool) \<Rightarrow> (nat \<Rightarrow> exn + pystr) \<Rightarrow> (nat \<Rightarrow> request \<Rightarrow> exn + pystr) \<Rightarrow>
   (pystr \<Rightarrow> exn + pyval) \<Rightarrow> world" where
  "scripted files answers replies loads =
     \<lparr>path_exists = files,
      read_bytes = (\<lambda>p. Inr []),
      console = answers,
      generate_content = replies,
      chat_create = (\<lambda>r. Inl (Exc OtherException [])),
      b64encode = (\<lambda>b. []),
      json_loads = loads,
      py_repr = (\<lambda>v. []),
      str_lower = (\<lambda>s. s),
      str_upper = (\<lambda>s. s),
      fault_text = (\<lambda>t v. [])\<rparr>"

text \<open>An environment without any file, and the state before the first call.\<close>

definition nothing_there :: world where
  "nothing_there =
     scripted (\<lambda>p. False) (\<lambda>k. Inr []) (\<lambda>k r. Inr []) (\<lambda>t. Inr PNone)"

definition fresh :: state where
  "fresh = \<lparr>calls = [], reads = 0\<rparr>"

text \<open>
  A scripted \<open>json.loads\<close>: the result for each text of a table, and a
  \<open>JSONDecodeError\<close> for every other text.
\<close>

definition loads_from :: "(pystr \<times> (exn + pyval)) list \<Rightarrow> pystr \<Rightarrow> exn + pyval" where
  "loads_from table t =
     (case map_of table t of Some r \<Rightarrow> r | None \<Rightarrow> Inl (Exc JSONDecodeError []))"

text \<open>
  A JSON object whose one string value is three backticks, and an environment whose
  \<open>json.loads\<close> knows this object, the object with the empty string, and the text cut
  after the opening quote of the value.
\<close>

definition backtick_payload :: pystr where
  \<open>backtick_payload = str ''{"n":"```"}''\<close>

definition backtick_world :: world where
  \<open>backtick_world =
     scripted (\<lambda>p. True) (\<lambda>k. Inr []) (\<lambda>k r. Inr [])
       (loads_from
         [(backtick_payload, Inr (PDict [(str ''n'', PStr fence)])),
          (str ''{"n":""}'', Inr (PDict [(str ''n'', PStr [])])),
          (str ''{"n":"'',
             Inl (Exc JSONDecodeError
                   (str ''Unterminated string starting at: line 1 column 6 (char 5)'')))])\<close>

text \<open>An environment whose \<open>json.loads\<close> knows the empty object and rejects a lone brace.\<close>

definition empty_object_world :: world where
  \<open>empty_object_world =
     scripted (\<lambda>p. True) (\<lambda>k. Inr []) (\<lambda>k r. Inr [])
       (loads_from
         [(str ''{}'', Inr (PDict [])),
          (str ''{'',
             Inl (Exc JSONDecodeError
                   (str ''Expecting property name enclosed in double quotes: line 1 column 2 (char 1)'')))])\<close>

text \<open>
  An environment whose console always answers and whose \<open>json.loads\<close> knows the empty
  object only; one of these lacks the file \<open>c\<close> and its model always replies with the
  empty object, another has a model that fails every request without an image (the
  request of the comparator).
\<close>

definition obliging :: "(pystr \<Rightarrow> bool) \<Rightarrow> (nat \<Rightarrow> request \<Rightarrow> exn + pystr) \<Rightarrow> world" where
  "obliging files replies =
     scripted files (\<lambda>k. Inr (str ''seen'')) replies (loads_from [(str ''{}'', Inr (PDict []))])"

definition one_missing :: world where
  "one_missing = obliging (\<lambda>p. p \<noteq> str ''c'') (\<lambda>k r. Inr (str ''{}''))"

definition failing_judge :: world where
  "failing_judge =
     obliging (\<lambda>p. True)
       (\<lambda>k r. if image r = None then Inl (Exc OtherException (str ''quota exceeded''))
              else Inr (str ''{}''))"

text \<open>
  An environment whose model asks \<open>Where?\<close> and whose console gives the answer of the
  example in the specification.
\<close>

definition clarifying :: world where
  \<open>clarifying =
     scripted (\<lambda>p. True)
       (\<lambda>k. Inr (str ''metal shard visible near conveyor belt, west wall''))
       (\<lambda>k r. Inr (str ''{"follow_up_question":"Where?"}''))
       (loads_from
         [(str ''{"follow_up_question":"Where?"}'',
           Inr (PDict [(str ''follow_up_question'', PStr (str ''Where?''))]))])\<close>

section \<open>What a run of the benchmark did\<close>

text \<open>
  The outcomes of the trials of a run, one per path and in the order of the paths:
  what \<open>run_single_benchmark\<close> gives on each path, started in the state the trial
  before it has left. A trial is completed when its outcome is a result, and aborted
  when it is an exception.
\<close>

fun trial_outcomes :: "world \<Rightarrow> state \<Rightarrow> (nat \<times> pystr) list \<Rightarrow> (exn + trial) list" where
  "trial_outcomes w st [] = []"
| "trial_outcomes w st ((i, path) # rest) =
     (case run_single_benchmark w st path i of (st1, r) \<Rightarrow> r # trial_outcomes w st1 rest)"

fun completed_trials :: "(exn + trial) list \<Rightarrow> trial list" where
  "completed_trials [] = []"
| "completed_trials (Inl e # rs) = completed_trials rs"
| "completed_trials (Inr t # rs) = t # completed_trials rs"

text \<open>
  What \<open>evaluate_accuracy\<close> makes of a reply of the judge: the parsed value, or the
  record of its handler when the extraction raises.
\<close>

definition verdict_of :: "world \<Rightarrow> pystr \<Rightarrow> pyval" where
  "verdict_of w reply =
     (case gemini_extract w reply of Inl e \<Rightarrow> evaluation_failed e | Inr v \<Rightarrow> v)"


section \<open>Environments with a scripted judge\<close>

text \<open>
  An environment in which every image exists, the console always answers, and the
  model replies with the empty object to every request that carries an image. A trial
  then issues four requests, the last of which is the request of the comparator, so
  the comparator of the \<open>j\<close>-th trial (counted from \<open>0\<close>) is the call of index
  \<open>4 * j + 3\<close>; it is given the reply \<open>verdicts j\<close>. \<open>json.loads\<close> knows the empty
  object and the texts of a table.
\<close>

definition judged :: "(nat \<Rightarrow> pystr) \<Rightarrow> (pystr \<times> (exn + pyval)) list \<Rightarrow> world" where
  "judged verdicts table =
     scripted (\<lambda>p. True) (\<lambda>k. Inr (str ''seen''))
       (\<lambda>k r. Inr (if image r = None then verdicts (k div 4) else str ''{}''))
       (loads_from ((str ''{}'', Inr (PDict [])) # table))"






text \<open>A judge whose reply is valid JSON but not an object: the empty array.\<close>

definition listing_judge :: world where
  "listing_judge = judged (\<lambda>j. str ''[]'') [(str ''[]'', Inr (PList []))]"

text \<open>
  An environment whose model gives that reply to every request, also to the requests
  of the two methods.
\<close>

definition listing_model :: world where
  "listing_model =
     scripted (\<lambda>p. True) (\<lambda>k. Inr (str ''seen'')) (\<lambda>k r. Inr (str ''[]''))
       (loads_from [(str ''[]'', Inr (PList []))])"

text \<open>The five paths of the examples.\<close>

definition five_paths :: "pystr list" where
  "five_paths = [str ''a'', str ''b'', str ''c'', str ''d'', str ''e'']"
section \<open>Floats: auxiliary facts\<close>

lemma ilog2_bounds:
  assumes "0 < q"
  shows "2 powi (ilog2 q) \<le> q \<and> q < 2 powi (ilog2 q + 1)"
proof (cases "1 \<le> q")
  case True
  define m where "m = \<lfloor>q\<rfloor>"
  from True have m: "0 < m" by (simp add: m_def)
  from bitlen_bounds[OF m] have b: "2 ^ nat (bitlen m - 1) \<le> m" "m < 2 ^ nat (bitlen m)"
    by simp_all
  from m have k: "1 \<le> bitlen m" using bitlen_eq_zero_iff[of m] bitlen_nonneg[of m] by linarith
  have il: "ilog2 q = bitlen m - 1" using True by (simp add: ilog2_def m_def)
  have lo: "(2::rat) powi (bitlen m - 1) = 2 ^ nat (bitlen m - 1)"
    using k by (simp add: power_int_def)
  have hi: "(2::rat) powi (bitlen m) = 2 ^ nat (bitlen m)"
    using k by (simp add: power_int_def)
  have "(2::rat) ^ nat (bitlen m - 1) \<le> of_int m"
    using b(1) by (metis of_int_le_iff of_int_numeral of_int_power)
  also have "\<dots> \<le> q" by (simp add: m_def)
  finally have 1: "2 powi (ilog2 q) \<le> q" by (simp add: il lo)
  have "q < of_int m + 1" unfolding m_def by linarith
  also have "\<dots> = of_int (m + 1)" by simp
  also have "\<dots> \<le> of_int (2 ^ nat (bitlen m))"
    using b(2) by (subst of_int_le_iff) simp
  also have "\<dots> = 2 ^ nat (bitlen m)" by simp
  finally have 2: "q < 2 powi (ilog2 q + 1)" by (simp add: il hi)
  from 1 2 show ?thesis ..
next
  case False
  define n where "n = \<lceil>1 / q\<rceil> - 1"
  from False assms have "1 < 1 / q" by simp
  then have n: "0 < n" unfolding n_def by linarith
  from bitlen_bounds[OF n] have b: "2 ^ nat (bitlen n - 1) \<le> n" "n < 2 ^ nat (bitlen n)"
    by simp_all
  from n have k: "1 \<le> bitlen n" using bitlen_eq_zero_iff[of n] bitlen_nonneg[of n] by linarith
  have il: "ilog2 q = - bitlen n" using False by (simp add: ilog2_def n_def)
  have p1: "(2::rat) powi (bitlen n) = 2 ^ nat (bitlen n)"
    using k by (simp add: power_int_def)
  have lo: "(2::rat) powi (- bitlen n) = 1 / 2 ^ nat (bitlen n)"
    by (simp only: power_int_minus_divide p1)
  have p2: "(2::rat) powi (bitlen n - 1) = 2 ^ nat (bitlen n - 1)"
    using k by (simp add: power_int_def)
  have "- bitlen n + 1 = - (bitlen n - 1)" by simp
  then have hi: "(2::rat) powi (- bitlen n + 1) = 1 / 2 ^ nat (bitlen n - 1)"
    by (simp only: power_int_minus_divide p2)
  have "1 / q \<le> of_int (n + 1)" unfolding n_def by simp
  also have "\<dots> \<le> of_int (2 ^ nat (bitlen n))"
    using b(2) by (subst of_int_le_iff) simp
  also have "\<dots> = 2 ^ nat (bitlen n)" by simp
  finally have "1 / q \<le> 2 ^ nat (bitlen n)" .
  with assms have 1: "2 powi (ilog2 q) \<le> q"
    unfolding il lo by (simp add: field_simps)
  have "(2::rat) ^ nat (bitlen n - 1) \<le> of_int n"
    using b(1) by (metis of_int_le_iff of_int_numeral of_int_power)
  also have "\<dots> < 1 / q" unfolding n_def by linarith
  finally have "(2::rat) ^ nat (bitlen n - 1) < 1 / q" .
  with assms have 2: "q < 2 powi (ilog2 q + 1)"
    unfolding il hi by (simp add: field_simps)
  from 1 2 show ?thesis ..
qed

lemma round_even_close: "\<bar>of_int (round_even x) - x\<bar> \<le> 1 / 2"
proof -
  have "of_int \<lfloor>x\<rfloor> \<le> x" "x < of_int \<lfloor>x\<rfloor> + 1" by linarith+
  then show ?thesis
    by (auto simp: round_even_def Let_def abs_le_iff)
qed

lemma nearest_close:
  "\<bar>nearest q - q\<bar> \<le> 2 powi (max (ilog2 q - 52) (- 1074)) / 2"
proof -
  define e where "e = max (ilog2 q - 52) (- 1074)"
  have p: "(0::rat) < 2 powi e" by simp
  have "nearest q - q = (of_int (round_even (q / 2 powi e)) - q / 2 powi e) * 2 powi e"
    using p by (simp add: nearest_def e_def Let_def algebra_simps)
  then have "\<bar>nearest q - q\<bar> = \<bar>of_int (round_even (q / 2 powi e)) - q / 2 powi e\<bar> * 2 powi e"
    using p by (simp add: abs_mult)
  also have "\<dots> \<le> (1 / 2) * 2 powi e"
    using round_even_close[of "q / 2 powi e"] p by (intro mult_right_mono) simp_all
  finally show ?thesis by (simp add: e_def)
qed



lemma ilog2_ge:
  assumes "0 < q" "2 powi k \<le> q"
  shows "k \<le> ilog2 q"
proof (rule ccontr)
  assume "\<not> k \<le> ilog2 q"
  then have "ilog2 q + 1 \<le> k" by simp
  then have "(2::rat) powi (ilog2 q + 1) \<le> 2 powi k" by (intro power_int_increasing) simp_all
  with ilog2_bounds[OF assms(1)] assms(2) show False by linarith
qed


lemma nearest_relative:
  assumes "1 / 8 \<le> q"
  shows "\<bar>nearest q - q\<bar> \<le> 2 powi (ilog2 q) / 2 ^ 53 \<and> \<bar>nearest q - q\<bar> \<le> q / 2 ^ 53"
proof -
  from assms have q: "0 < q" by simp
  have "(2::rat) powi (- 3) \<le> q" using assms(1) by (simp add: power_int_minus)
  from ilog2_ge[OF q this] have lo: "- 3 \<le> ilog2 q" .
  from lo have e: "max (ilog2 q - 52) (- 1074) = ilog2 q - 52" by simp
  have split: "(2::rat) powi (ilog2 q - 52) / 2 = 2 powi (ilog2 q) / 2 ^ 53"
    by (simp add: power_int_diff)
  from nearest_close[of q] have c: "\<bar>nearest q - q\<bar> \<le> 2 powi (ilog2 q) / 2 ^ 53"
    by (simp only: e split)
  from ilog2_bounds[OF q] have "2 powi (ilog2 q) / 2 ^ 53 \<le> q / 2 ^ 53"
    by (simp add: divide_right_mono)
  with c show ?thesis by linarith
qed

lemma nearest_positive:
  assumes "1 / 8 \<le> q"
  shows "0 < nearest q"
proof -
  from nearest_relative[OF assms] have "\<bar>nearest q - q\<bar> \<le> q / 2 ^ 53" ..
  moreover from assms have "q / 2 ^ 53 < q" by simp
  ultimately show ?thesis by linarith
qed











section \<open>The aggregator: auxiliary facts\<close>

lemma py_sum_ints: "py_sum w (map PInt xs) (NInt acc) = Inr (NInt (acc + sum_list xs))"
  by (induction xs arbitrary: acc) simp_all

lemma average_empty: "average w [] = Inr (NInt 0)"
  by (simp add: average_def)

lemma average_ints:
  "xs \<noteq> [] \<Longrightarrow> average w (map PInt xs) =
     (case int_truediv (sum_list xs) (int (length xs)) of
        Inl e \<Rightarrow> Inl e | Inr f \<Rightarrow> Inr (NFloat f))"
  by (simp add: average_def py_sum_ints)

lemma float_of_int_error: "float_of_int n = Inl e \<Longrightarrow> exc_type_of e = OverflowError"
  by (auto simp: float_of_int_def split: pyfloat.splits)

lemma num_add_error: "num_add a b = Inl e \<Longrightarrow> exc_type_of e = OverflowError"
  by (cases a; cases b) (auto split: sum.splits dest: float_of_int_error)

lemma py_sum_error:
  "py_sum w vs acc = Inl e \<Longrightarrow> exc_type_of e = TypeError \<or> exc_type_of e = OverflowError"
  by (induction w vs acc rule: py_sum.induct)
     (auto simp: fault_def split: sum.splits dest: num_add_error)

lemma float_of_int_positive:
  assumes "0 < n" "float_of_int n = Inr g"
  shows "\<not> is_zero g"
proof -
  from assms(1) have q: "1 / 8 \<le> (of_int n :: rat)" "(0::rat) < of_int n" "(of_int n :: rat) \<noteq> 0"
    by simp_all
  from nearest_positive[OF q(1)] have "0 < nearest (of_int n)" .
  with assms(2) q(2,3) show ?thesis
    by (auto simp: float_of_int_def round_double_def Let_def is_zero_def split: if_splits)
qed

lemma truediv_count_error:
  assumes "0 < n" "truediv s (NInt n) = Inl e"
  shows "exc_type_of e = OverflowError"
proof (cases s)
  case (NInt a)
  with assms show ?thesis
    by (auto simp: int_truediv_def split: if_splits pyfloat.splits)
next
  case (NFloat f)
  show ?thesis
  proof (cases "float_of_int n")
    case (Inl x)
    with assms NFloat show ?thesis by (auto dest: float_of_int_error)
  next
    case (Inr g)
    from float_of_int_positive[OF assms(1) Inr] have "\<not> is_zero g" .
    with assms NFloat Inr show ?thesis by (simp add: float_truediv_def split: if_splits)
  qed
qed

lemma average_error:
  assumes "average w vs = Inl e"
  shows "exc_type_of e = TypeError \<or> exc_type_of e = OverflowError"
proof (cases "vs = []")
  case True
  with assms show ?thesis by (simp add: average_def)
next
  case False
  then have n: "0 < int (length vs)" by simp
  show ?thesis
  proof (cases "py_sum w vs (NInt 0)")
    case (Inl x)
    with assms False show ?thesis by (auto simp: average_def dest: py_sum_error)
  next
    case (Inr s)
    with assms False have "truediv s (NInt (int (length vs))) = Inl e"
      by (simp add: average_def split: sum.splits)
    from truediv_count_error[OF n this] show ?thesis ..
  qed
qed

lemma display_final_summary_error:
  "display_final_summary w a b = Inl e \<Longrightarrow> exc_type_of e = IndexError"
  by (auto simp: display_final_summary_def fault_def split: if_splits)









lemma run_single_benchmark_Inr:
  assumes "run_single_benchmark w st path n = (st', Inr t)"
  shows "path_exists w path \<and> image_path t = path \<and> test_number t = n \<and>
         (\<exists>d. evaluation t = PDict d)"
  using assms
  by (auto simp: run_single_benchmark_def display_results_def
      split: if_splits prod.splits sum.splits pyval.splits)


lemma run_trials_results:
  assumes "run_trials w st ps (rs, s1, s2) = (st', rs', s1', s2')"
  shows "\<exists>new. rs' = rs @ new \<and> (\<forall>t \<in> set new. path_exists w (image_path t) \<and>
            (test_number t, image_path t) \<in> set ps)"
  using assms
proof (induction ps arbitrary: st rs s1 s2)
  case Nil
  then show ?case by simp
next
  case (Cons p ps)
  obtain i path where p: "p = (i, path)" by (cases p)
  obtain st1 r where r: "run_single_benchmark w st path i = (st1, r)"
    by (cases "run_single_benchmark w st path i")
  show ?case
  proof (cases r)
    case (Inl e)
    with Cons.prems p r have "run_trials w st1 ps (rs, s1, s2) = (st', rs', s1', s2')" by simp
    from Cons.IH[OF this] show ?thesis by auto
  next
    case (Inr t)
    from run_single_benchmark_Inr[OF r[unfolded Inr]] obtain d where d: "evaluation t = PDict d"
      and t: "path_exists w path" "image_path t = path" "test_number t = i"
      by blast
    from Cons.prems(1) p r Inr d
    have step: "run_trials w st1 ps (rs @ [t], s1 @ [dget d (str ''method1_accuracy'') (PInt 0)],
        s2 @ [dget d (str ''method2_accuracy'') (PInt 0)]) = (st', rs', s1', s2')"
      by (simp add: method_get_def)
    from Cons.IH[OF step] obtain new where "rs' = (rs @ [t]) @ new"
      "\<forall>t \<in> set new. path_exists w (image_path t) \<and> (test_number t, image_path t) \<in> set ps"
      by blast
    with t p show ?thesis by (intro exI[of _ "t # new"]) auto
  qed
qed

lemma enum5: "enumerate_from [a, b, c, d, e] 1 = [(1, a), (2, b), (3, c), (4, d), (5, e)]"
  by (simp add: enumerate_from_def upt_conv_Cons)

lemma missing: "\<not> path_exists w p \<Longrightarrow> run_trials w st ((i, p) # rest) acc = run_trials w st rest acc"
  by (cases acc) (simp add: run_single_benchmark_def)

lemma nothing_there_run:
  "run_full_benchmark nothing_there fresh [[], [], [], [], []] =
     (fresh, Inr \<lparr>benchmark_summary =
        \<lparr>total_tests = 0, method1_average = NInt 0, method2_average = NInt 0,
         method1_scores = [], method2_scores = [], winner = str ''tie''\<rparr>,
         detailed_results = []\<rparr>)"
proof -
  have ex: "\<And>p. \<not> path_exists nothing_there p" by (simp add: nothing_there_def scripted_def)
  have "run_trials nothing_there fresh (enumerate_from [[], [], [], [], []] 1) ([], [], []) = (fresh, [], [], [])"
    by (simp only: enum5 missing[OF ex] run_trials.simps(1))
  then show ?thesis
    by (simp add: run_full_benchmark_def average_def display_final_summary_def overall_winner_def)
qed

lemma run_full_benchmark_Inr:
  assumes full: "run_full_benchmark w st image_paths = (st', Inr res)"
  shows "\<exists>st1 rs s1 s2 a1 a2.
     run_trials w st (enumerate_from image_paths 1) ([], [], []) = (st1, rs, s1, s2) \<and>
     length image_paths = 5 \<and> st' = st1 \<and>
     average w s1 = Inr a1 \<and> average w s2 = Inr a2 \<and>
     res = \<lparr>benchmark_summary =
               \<lparr>total_tests = length rs, method1_average = a1, method2_average = a2,
                method1_scores = s1, method2_scores = s2, winner = overall_winner a1 a2\<rparr>,
             detailed_results = rs\<rparr>"
proof -
  obtain st1 rs s1 s2 where
    loop: "run_trials w st (enumerate_from image_paths 1) ([], [], []) = (st1, rs, s1, s2)"
    by (cases "run_trials w st (enumerate_from image_paths 1) ([], [], [])") auto
  from full have len: "length image_paths = 5"
    by (simp add: run_full_benchmark_def split: if_splits)
  from full len loop obtain a1 where a1: "average w s1 = Inr a1"
    by (cases "average w s1") (simp_all add: run_full_benchmark_def)
  from full len loop a1 obtain a2 where a2: "average w s2 = Inr a2"
    by (cases "average w s2") (simp_all add: run_full_benchmark_def)
  from full len loop a1 a2 show ?thesis
    by (cases "display_final_summary w s1 s2") (auto simp add: run_full_benchmark_def)
qed


lemma aborted:
  "run_single_benchmark w st p i = (st1, Inl e) \<Longrightarrow>
     run_trials w st ((i, p) # rest) acc = run_trials w st1 rest acc"
  by (cases acc) simp

lemma run_trials_outcomes:
  assumes "run_trials w st ps (rs, s1, s2) = (st', rs', s1', s2')"
  shows "rs' = rs @ completed_trials (trial_outcomes w st ps)"
  using assms
proof (induction ps arbitrary: st rs s1 s2)
  case Nil
  then show ?case by simp
next
  case (Cons x ps)
  obtain i p where x: "x = (i, p)" by (cases x)
  obtain st1 r where r: "run_single_benchmark w st p i = (st1, r)"
    by (cases "run_single_benchmark w st p i")
  show ?case
  proof (cases r)
    case (Inl e)
    with Cons.prems x r have "run_trials w st1 ps (rs, s1, s2) = (st', rs', s1', s2')" by simp
    from Cons.IH[OF this] x r Inl show ?thesis by simp
  next
    case (Inr t)
    from run_single_benchmark_Inr[OF r[unfolded Inr]] obtain d where d: "evaluation t = PDict d"
      by blast
    from Cons.prems(1) x r Inr d
    have step: "run_trials w st1 ps (rs @ [t], s1 @ [dget d (str ''method1_accuracy'') (PInt 0)],
        s2 @ [dget d (str ''method2_accuracy'') (PInt 0)]) = (st', rs', s1', s2')"
      by (simp add: method_get_def)
    from Cons.IH[OF step] x r Inr show ?thesis by simp
  qed
qed



lemma completed_trials_exist:
  "t \<in> set (completed_trials (trial_outcomes w st ps)) \<Longrightarrow> path_exists w (image_path t)"
proof (induction ps arbitrary: st)
  case Nil
  then show ?case by simp
next
  case (Cons x ps)
  obtain i p where x: "x = (i, p)" by (cases x)
  obtain st1 r where r: "run_single_benchmark w st p i = (st1, r)"
    by (cases "run_single_benchmark w st p i")
  show ?case
  proof (cases r)
    case (Inl e)
    with Cons.prems x r have "t \<in> set (completed_trials (trial_outcomes w st1 ps))" by simp
    then show ?thesis by (rule Cons.IH)
  next
    case (Inr u)
    with Cons.prems x r have "t = u \<or> t \<in> set (completed_trials (trial_outcomes w st1 ps))"
      by simp
    then show ?thesis
    proof
      assume "t = u"
      with run_single_benchmark_Inr[OF r[unfolded Inr]] show ?thesis by simp
    next
      assume "t \<in> set (completed_trials (trial_outcomes w st1 ps))"
      then show ?thesis by (rule Cons.IH)
    qed
  qed
qed

section \<open>Text operations: auxiliary facts\<close>

lemma fence_json_eq: "fence_json = [96, 96, 96, 106, 115, 111, 110]"
  by (simp add: fence_json_def str_def)

lemma fence_eq: "fence = [96, 96, 96]"
  by (simp add: fence_def str_def)

lemma find_at_prefix: "prefix sub s \<Longrightarrow> find_at sub s i = int i"
  by (cases s) simp_all

lemma find_at_none_iff: "find_at sub s i = -1 \<longleftrightarrow> \<not> sublist sub s"
proof (induction s arbitrary: i)
  case Nil
  then show ?case by simp
next
  case (Cons c cs)
  then show ?case by (cases sub) (simp_all add: sublist_Cons_right)
qed

lemma contains_iff_sublist: "contains sub s \<longleftrightarrow> sublist sub s"
  by (simp add: contains_def find_str_def find_at_none_iff)

lemma find_at_found:
  "find_at sub s i \<noteq> -1 \<Longrightarrow>
     \<exists>k. find_at sub s i = int (i + k) \<and> k + length sub \<le> length s \<and> prefix sub (drop k s)"
proof (induction s arbitrary: i)
  case Nil
  then show ?case by (auto split: if_splits)
next
  case (Cons c cs)
  show ?case
  proof (cases "prefix sub (c # cs)")
    case True
    then show ?thesis by (intro exI[of _ 0]) (auto dest: prefix_length_le)
  next
    case False
    with Cons.prems have "find_at sub cs (Suc i) \<noteq> -1" by simp
    from Cons.IH[OF this] obtain k where
      "find_at sub cs (Suc i) = int (Suc i + k)" "k + length sub \<le> length cs" "prefix sub (drop k cs)"
      by blast
    with False show ?thesis by (intro exI[of _ "Suc k"]) auto
  qed
qed

lemma slice_to_last:
  assumes "start \<le> length s"
  shows "slice s (int start) (-1) = butlast (drop start s)"
proof (cases "s = []")
  case True
  then show ?thesis by (simp add: slice_def)
next
  case False
  then have "nat (int (length s) - 1 - int start) = length s - start - 1" by simp
  with False assms show ?thesis
    by (simp add: slice_def butlast_conv_take max_def min_def nat_diff_distrib')
qed

lemma gemini_unfence_unclosed:
  assumes open_fence: "contains fence_json t"
    and unclosed: "find_str fence t (nat (find_str fence_json t 0 + 7)) = -1"
  shows "gemini_unfence t = strip (butlast (drop (nat (find_str fence_json t 0 + 7)) t))"
proof -
  from open_fence have "find_at fence_json t 0 \<noteq> -1"
    by (simp add: contains_def find_str_def)
  from find_at_found[OF this] obtain k where
    k: "find_at fence_json t 0 = int k" "k + 7 \<le> length t"
    by (auto simp: fence_json_eq)
  then have start: "find_str fence_json t 0 + 7 = int (k + 7)"
    by (simp add: find_str_def)
  have "gemini_unfence t = strip (slice t (int (k + 7)) (-1))"
    using open_fence unclosed start by (simp add: gemini_unfence_def Let_def)
  also have "slice t (int (k + 7)) (-1) = butlast (drop (k + 7) t)"
    using k(2) by (rule slice_to_last)
  finally show ?thesis using start by (simp add: nat_add_distrib)
qed

lemma strip_Cons_space: "isspace c \<Longrightarrow> strip (c # s) = strip s"
  by (simp add: strip_def)

lemma strip_snoc_space:
  assumes "isspace c"
  shows "strip (s @ [c]) = strip s"
proof (cases "\<forall>x \<in> set s. isspace x")
  case True
  then have e: "dropWhile isspace s = []" by (induction s) simp_all
  from True assms have e': "dropWhile isspace (s @ [c]) = []" by (induction s) simp_all
  show ?thesis unfolding strip_def e e' by simp
next
  case False
  with assms show ?thesis by (auto simp: strip_def dropWhile_append)
qed

lemma strip_id:
  assumes "s \<noteq> []" "\<not> isspace (hd s)" "\<not> isspace (last s)"
  shows "strip s = s"
proof -
  from assms have a: "dropWhile isspace s = s" by (cases s) simp_all
  from assms have "dropWhile isspace (rev s) = rev s"
    by (cases "rev s") (simp_all add: last_rev[symmetric] hd_rev)
  with a show ?thesis by (simp add: strip_def)
qed

lemma not_prefix_across:
  assumes "sep \<notin> set sub" "\<not> prefix sub p"
  shows "\<not> prefix sub (p @ sep # r)"
proof
  assume "prefix sub (p @ sep # r)"
  then consider "prefix sub p" | us where "sub = p @ us" "prefix us (sep # r)"
    by (auto simp: prefix_append)
  then show False
  proof cases
    case 1
    with assms show False by simp
  next
    case 2
    with assms(2) have "us \<noteq> []" by auto
    with 2(2) have "sep \<in> set us" by (cases us) auto
    with 2(1) assms(1) show False by simp
  qed
qed

lemma find_at_after_sep:
  assumes "sep \<notin> set sub" "sub \<noteq> []" "\<not> sublist sub p"
  shows "find_at sub (p @ sep # sub @ r) i = int (i + length p + 1)"
  using assms(3)
proof (induction p arbitrary: i)
  case Nil
  from assms(1,2) have "\<not> prefix sub (sep # sub @ r)" by (cases sub) auto
  moreover have "find_at sub (sub @ r) (Suc i) = int (Suc i)"
    by (rule find_at_prefix) simp
  ultimately show ?case by simp
next
  case (Cons c q)
  from Cons.prems have np: "\<not> prefix sub (c # q)" and nq: "\<not> sublist sub q"
    by (auto simp: sublist_Cons_right)
  from not_prefix_across[OF assms(1) np] have "\<not> prefix sub ((c # q) @ sep # sub @ r)" .
  with Cons.IH[OF nq, of "Suc i"] show ?case by simp
qed

lemma replace_absent:
  assumes "old \<noteq> []" "\<not> sublist old s"
  shows "replace old new s = s"
  using assms(2)
proof (induction s)
  case Nil
  with assms(1) show ?case by simp
next
  case (Cons c cs)
  then have "\<not> prefix old (c # cs)" "\<not> sublist old cs"
    by (auto simp: sublist_Cons_right)
  with Cons.IH assms(1) show ?case by simp
qed

lemma replace_across_sep:
  assumes "sep \<notin> set old" "old \<noteq> []"
  shows "replace old new (p @ sep # r) = replace old new p @ sep # replace old new r"
proof (induction "length p" arbitrary: p rule: less_induct)
  case less
  show ?case
  proof (cases p)
    case Nil
    from assms have "\<not> prefix old (sep # r)" by (cases old) auto
    with Nil assms(2) show ?thesis by simp
  next
    case (Cons c cs)
    show ?thesis
    proof (cases "prefix old (c # cs)")
      case True
      then have le: "length old \<le> length (c # cs)" by (rule prefix_length_le)
      from True have pre: "prefix old ((c # cs) @ sep # r)" by (simp add: prefix_append del: append_Cons)
      from assms(2) have "length (drop (length old) (c # cs)) < length p"
        using Cons by (cases old) simp_all
      from less[OF this]
      have "replace old new (drop (length old) (c # cs) @ sep # r) =
              replace old new (drop (length old) (c # cs)) @ sep # replace old new r" .
      moreover from le have "drop (length old) ((c # cs) @ sep # r) =
          drop (length old) (c # cs) @ sep # r"
        by (simp del: append_Cons)
      ultimately show ?thesis using True pre assms(2) Cons by simp
    next
      case False
      from not_prefix_across[OF assms(1) False]
      have np: "\<not> prefix old ((c # cs) @ sep # r)" .
      have "length cs < length p" using Cons by simp
      from less[OF this] np False assms(2) Cons show ?thesis by simp
    qed
  qed
qed

lemma replace_prefix:
  assumes "old \<noteq> []"
  shows "replace old new (old @ s) = new @ replace old new s"
proof -
  from assms obtain c cs where "old @ s = c # cs" by (cases old) auto
  moreover have "prefix old (old @ s)" by simp
  ultimately show ?thesis using assms
    by (metis append_eq_conv_conj replace.simps(2))
qed

lemma isspace_10: "isspace 10"
  by (simp add: isspace_def)

lemma gemini_unfence_fenced:
  assumes "\<not> contains fence p"
  shows "gemini_unfence (fenced_block p) = strip p"
proof -
  from assms have nosub: "\<not> sublist fence p" by (simp add: contains_iff_sublist)
  have pre: "prefix fence_json (fenced_block p)" by (simp add: fenced_block_def)
  then have f1: "find_str fence_json (fenced_block p) 0 = 0"
    by (simp add: find_str_def find_at_prefix)
  then have c: "contains fence_json (fenced_block p)" by (simp add: contains_def)
  have d: "drop 7 (fenced_block p) = 10 # p @ 10 # fence @ []"
    by (simp add: fenced_block_def fence_json_eq)
  have "(10::nat) \<notin> set fence" "fence \<noteq> []" by (simp_all add: fence_eq)
  from find_at_after_sep[OF this nosub, where r="[]" and i=8]
  have "find_at fence (p @ 10 # fence @ []) 8 = int (length p + 9)" by simp
  moreover have "\<not> prefix fence (10 # p @ 10 # fence @ [])" by (simp add: fence_eq)
  ultimately have f2: "find_str fence (fenced_block p) 7 = int (length p + 9)"
    by (simp add: find_str_def d) (simp add: fenced_block_def fence_json_eq)
  have len: "length (fenced_block p) = length p + 12"
    by (simp add: fenced_block_def fence_json_eq fence_eq)
  have "slice (fenced_block p) 7 (int (length p + 9)) = take (length p + 2) (drop 7 (fenced_block p))"
  proof -
    have "nat (2 + int (length p)) = length p + 2" by simp
    then show ?thesis by (simp add: slice_def len)
  qed
  also have "\<dots> = 10 # p @ [10]" by (simp add: d)
  finally have sl: "slice (fenced_block p) 7 (int (length p + 9)) = (10 # p) @ [10]" by simp
  have "gemini_unfence (fenced_block p) = strip (slice (fenced_block p) 7 (int (length p + 9)))"
    using c f1 f2 by (simp add: gemini_unfence_def)
  also have "\<dots> = strip p"
    unfolding sl by (simp add: strip_snoc_space strip_Cons_space isspace_10)
  finally show ?thesis .
qed

lemma openai_unfence_fenced:
  assumes "\<not> contains fence p"
  shows "openai_unfence (fenced_block p) = strip p"
proof -
  from assms have nosub: "\<not> sublist fence p" by (simp add: contains_iff_sublist)
  have "sublist fence fence_json" by (simp add: fence_eq fence_json_eq sublist_code)
  with nosub have nosubj: "\<not> sublist fence_json p"
    using sublist_order.order_trans by blast
  have nj: "(10::nat) \<notin> set fence_json" "fence_json \<noteq> []" by (simp_all add: fence_json_eq)
  have nf: "(10::nat) \<notin> set fence" "fence \<noteq> []" by (simp_all add: fence_eq)
  have e: "replace fence_json [] fence = fence"
    by (rule replace_absent) (simp_all add: fence_eq fence_json_eq sublist_code)
  have "replace fence_json [] (fenced_block p) = replace fence_json [] ([] @ 10 # p @ 10 # fence)"
    unfolding fenced_block_def using replace_prefix[OF nj(2), of "[]" "10 # p @ 10 # fence"]
    by simp
  also have "\<dots> = 10 # replace fence_json [] (p @ 10 # fence)"
    using replace_across_sep[OF nj, of "[]" "[]" "p @ 10 # fence"] nj(2) by simp
  also have "\<dots> = 10 # p @ 10 # fence"
    using replace_across_sep[OF nj, of "[]" p fence] replace_absent[OF nj(2) nosubj] e by simp
  finally have r1: "replace fence_json [] (fenced_block p) = [] @ 10 # p @ 10 # fence" by simp
  have "replace fence [] ([] @ 10 # p @ 10 # fence) = 10 # replace fence [] (p @ 10 # fence)"
    using replace_across_sep[OF nf, of "[]" "[]" "p @ 10 # fence"] nf(2) by simp
  also have "\<dots> = 10 # p @ 10 # replace fence [] fence"
    using replace_across_sep[OF nf, of "[]" p fence] replace_absent[OF nf(2) nosub] by simp
  also have "replace fence [] fence = []"
    using replace_prefix[OF nf(2), of "[]" "[]"] nf(2) by simp
  finally have r2: "replace fence [] (replace fence_json [] (fenced_block p)) = (10 # p) @ [10]"
    unfolding r1 by simp
  have "startswith (fenced_block p) fence_json" by (simp add: startswith_def fenced_block_def)
  then have "openai_unfence (fenced_block p) = strip ((10 # p) @ [10])"
    by (simp add: openai_unfence_def r2)
  then show ?thesis by (simp add: strip_snoc_space strip_Cons_space isspace_10)
qed

lemma strip_fenced: "strip (fenced_block p) = fenced_block p"
  by (rule strip_id) (simp_all add: fenced_block_def fence_json_eq fence_eq isspace_def)

lemma backtick_payload_eq:
  "backtick_payload = [123, 34, 110, 34, 58, 34, 96, 96, 96, 34, 125]"
  by (simp add: backtick_payload_def str_def)

lemma backtick_fenced_eq:
  "fenced_block backtick_payload =
     [96, 96, 96, 106, 115, 111, 110, 10, 123, 34, 110, 34, 58, 34, 96, 96, 96, 34, 125, 10, 96, 96, 96]"
  by (simp add: fenced_block_def backtick_payload_eq fence_json_eq fence_eq)

lemma backtick_gemini_text:
  "gemini_unfence (fenced_block backtick_payload) = [123, 34, 110, 34, 58, 34]"
  unfolding backtick_fenced_eq
  by (simp add: gemini_unfence_def contains_def find_str_def slice_def strip_def isspace_def
      fence_json_eq fence_eq)

lemma backtick_openai_text:
  "openai_unfence (fenced_block backtick_payload) = [123, 34, 110, 34, 58, 34, 34, 125]"
  unfolding backtick_fenced_eq
  by (simp add: openai_unfence_def startswith_def strip_def isspace_def fence_json_eq fence_eq)

lemma str_texts:
  \<open>str ''{"n":"'' = [123, 34, 110, 34, 58, 34]\<close>
  \<open>str ''{"n":""}'' = [123, 34, 110, 34, 58, 34, 34, 125]\<close>
  \<open>str ''{}'' = [123, 125]\<close>
  \<open>str ''{'' = [123]\<close>
  \<open>str ''```json{}'' = [96, 96, 96, 106, 115, 111, 110, 123, 125]\<close>
  by (simp_all add: str_def)


section \<open>Trials: auxiliary facts\<close>

lemma contains_here: "contains sub (sub @ r)"
  by (simp add: contains_iff_sublist)

lemma contains_later: "contains sub r \<Longrightarrow> contains sub (l @ r)"
  by (simp add: contains_iff_sublist sublist_append)

lemma final_prompt_contains:
  "contains q (final_prompt q a) \<and> contains a (final_prompt q a)"
  unfolding final_prompt_def
  by (intro conjI contains_here contains_later)

lemma evaluate_accuracy_result:
  "evaluate_accuracy w st m1 m2 gt =
     (st\<lparr>calls := calls st @ [evaluation_request w m1 m2 gt]\<rparr>,
      case generate_content w (length (calls st)) (evaluation_request w m1 m2 gt) of
        Inl e \<Rightarrow> evaluation_failed e
      | Inr text \<Rightarrow> (case gemini_extract w text of Inl e \<Rightarrow> evaluation_failed e | Inr v \<Rightarrow> v))"
  by (simp add: evaluate_accuracy_def call_model_def split: sum.splits)

lemma evaluation_failed_scores:
  "method_get w (evaluation_failed e) (str ''method1_accuracy'') (PInt 0) = Inr (PInt 0)"
  "method_get w (evaluation_failed e) (str ''method2_accuracy'') (PInt 0) = Inr (PInt 0)"
  "method_get w (evaluation_failed e) (str ''winner'') dflt = Inr (PStr (str ''error''))"
  by (simp_all add: method_get_def evaluation_failed_def dget_def str_def)

lemma completed:
  assumes "run_single_benchmark w st p i = (st1, Inr t)"
  shows "\<exists>d. evaluation t = PDict d \<and>
     run_trials w st ((i, p) # rest) (rs, s1, s2) =
     run_trials w st1 rest
       (rs @ [t], s1 @ [dget d (str ''method1_accuracy'') (PInt 0)],
        s2 @ [dget d (str ''method2_accuracy'') (PInt 0)])"
proof -
  from run_single_benchmark_Inr[OF assms] obtain d where "evaluation t = PDict d" by blast
  with assms show ?thesis by (simp add: method_get_def)
qed

lemma failed_evaluation_counted:
  assumes "path_exists w p"
    and "method1_manual_input_with_ai w st p = (st1, Inr m1)"
    and "method2_ai_followup w st1 p = (st2, Inr m2)"
    and "get_ground_truth w st2 = (st3, Inr gt)"
    and "snd (evaluate_accuracy w st3 m1 m2 gt) = evaluation_failed e"
  shows "run_trials w st ((i, p) # rest) (rs, s1, s2) =
     run_trials w (st3\<lparr>calls := calls st3 @ [evaluation_request w m1 m2 gt]\<rparr>) rest
       (rs @ [\<lparr>test_number = i, image_path = p, method1_result = m1, method2_result = m2,
               ground_truth = gt, evaluation = evaluation_failed e\<rparr>],
        s1 @ [PInt 0], s2 @ [PInt 0])"
proof -
  from assms(5) have ev: "evaluate_accuracy w st3 m1 m2 gt =
      (st3\<lparr>calls := calls st3 @ [evaluation_request w m1 m2 gt]\<rparr>, evaluation_failed e)"
    by (simp add: evaluate_accuracy_result)
  have "display_results w (evaluation_failed e) = Inr ()"
    by (simp add: display_results_def evaluation_failed_def)
  with assms(1-4) ev have "run_single_benchmark w st p i =
     (st3\<lparr>calls := calls st3 @ [evaluation_request w m1 m2 gt]\<rparr>,
      Inr \<lparr>test_number = i, image_path = p, method1_result = m1, method2_result = m2,
               ground_truth = gt, evaluation = evaluation_failed e\<rparr>)"
    by (simp add: run_single_benchmark_def)
  then show ?thesis
    by (simp add: evaluation_failed_scores)
qed

lemma run_trials_count:
  assumes "run_trials w st ps (rs, s1, s2) = (st', rs', s1', s2')"
  shows "length rs' \<le> length rs + length (filter (\<lambda>(i, p). path_exists w p) ps)"
  using assms
proof (induction ps arbitrary: st rs s1 s2)
  case Nil
  then show ?case by simp
next
  case (Cons x ps)
  obtain i p where x: "x = (i, p)" by (cases x)
  obtain st1 r where r: "run_single_benchmark w st p i = (st1, r)"
    by (cases "run_single_benchmark w st p i")
  show ?case
  proof (cases r)
    case (Inl e)
    with Cons.prems x r have "run_trials w st1 ps (rs, s1, s2) = (st', rs', s1', s2')" by simp
    from Cons.IH[OF this] show ?thesis by simp
  next
    case (Inr t)
    from run_single_benchmark_Inr[OF r[unfolded Inr]] have ex: "path_exists w p" by blast
    from completed[OF r[unfolded Inr], of ps rs s1 s2] Cons.prems x obtain a b where
      "run_trials w st1 ps (rs @ [t], a, b) = (st', rs', s1', s2')" by auto
    from Cons.IH[OF this] ex x show ?thesis by simp
  qed
qed

lemma run_trials_count_eq:
  assumes all: "\<And>st p i. path_exists w p \<Longrightarrow> \<exists>st1 t. run_single_benchmark w st p i = (st1, Inr t)"
    and "run_trials w st ps (rs, s1, s2) = (st', rs', s1', s2')"
  shows "length rs' = length rs + length (filter (\<lambda>(i, p). path_exists w p) ps)"
  using assms(2)
proof (induction ps arbitrary: st rs s1 s2)
  case Nil
  then show ?case by simp
next
  case (Cons x ps)
  obtain i p where x: "x = (i, p)" by (cases x)
  show ?case
  proof (cases "path_exists w p")
    case False
    have "run_trials w st (x # ps) (rs, s1, s2) = run_trials w st ps (rs, s1, s2)"
      unfolding x by (rule missing[OF False])
    with Cons.prems have "run_trials w st ps (rs, s1, s2) = (st', rs', s1', s2')"
      by (simp only:)
    from Cons.IH[OF this] False x show ?thesis by simp
  next
    case True
    from all[OF True] obtain st1 t where r: "run_single_benchmark w st p i = (st1, Inr t)"
      by blast
    from completed[OF r, of ps rs s1 s2] Cons.prems x obtain a b where
      "run_trials w st1 ps (rs @ [t], a, b) = (st', rs', s1', s2')" by auto
    from Cons.IH[OF this] True x show ?thesis by simp
  qed
qed

lemma filter_enumerate:
  "length (filter (\<lambda>(i, p). P p) (enumerate_from ps n)) = length (filter P ps)"
proof -
  have "map snd (filter (\<lambda>(i, p). P p) (enumerate_from ps n)) = filter P (map snd (enumerate_from ps n))"
    by (simp add: filter_map comp_def case_prod_unfold)
  moreover have "map snd (enumerate_from ps n) = ps"
    by (simp add: enumerate_from_def)
  ultimately show ?thesis by (metis length_map)
qed

lemma input_result:
  "console w (reads st) = Inr a \<Longrightarrow> input w st = (st\<lparr>reads := Suc (reads st)\<rparr>, Inr a)"
  by (simp add: input_def)

lemma method1_returns:
  assumes con: "\<And>k. \<exists>a. console w k = Inr a" and rd: "read_bytes w p = Inr b"
  shows "\<exists>st1 m1. method1_manual_input_with_ai w st p = (st1, Inr m1)"
proof -
  from con obtain a1 where a1: "console w (reads st) = Inr a1" by blast
  from con obtain a2 where a2: "console w (Suc (reads st)) = Inr a2" by blast
  from con obtain a3 where a3: "console w (Suc (Suc (reads st))) = Inr a3" by blast
  let ?st3 = "st\<lparr>reads := Suc (Suc (Suc (reads st)))\<rparr>"
  obtain st4 r where t: "method1_try w ?st3 p b a1 a2 a3 = (st4, r)"
    by (cases "method1_try w ?st3 p b a1 a2 a3")
  show ?thesis
    using a1 a2 a3 rd t
    by (cases r) (simp_all add: method1_manual_input_with_ai_def input_def encode_image_def)
qed

lemma method2_returns:
  assumes rd: "read_bytes w p = Inr b"
  shows "\<exists>st1 m2. method2_ai_followup w st p = (st1, Inr m2)"
proof -
  obtain st1 r where t: "method2_try w st p b = (st1, r)" by (cases "method2_try w st p b")
  show ?thesis using rd t
    by (cases r) (simp_all add: method2_ai_followup_def encode_image_def)
qed

lemma get_ground_truth_returns:
  assumes con: "\<And>k. \<exists>a. console w k = Inr a"
  shows "\<exists>st1 gt. get_ground_truth w st = (st1, Inr gt)"
proof -
  from con obtain a1 where a1: "console w (reads st) = Inr a1" by blast
  from con obtain a2 where a2: "console w (Suc (reads st)) = Inr a2" by blast
  from con obtain a3 where a3: "console w (Suc (Suc (reads st))) = Inr a3" by blast
  show ?thesis using a1 a2 a3 by (simp add: get_ground_truth_def input_def)
qed

lemma run_single_benchmark_evaluation:
  assumes "run_single_benchmark w st p i = (st4, Inr t)"
  shows "\<exists>st3. evaluation t =
     snd (evaluate_accuracy w st3 (method1_result t) (method2_result t) (ground_truth t))"
  using assms
  apply (auto simp: run_single_benchmark_def split: if_splits prod.splits sum.splits)
  by (metis snd_conv)

lemma run_single_benchmark_completes:
  assumes ex: "path_exists w p"
    and con: "\<And>k. \<exists>a. console w k = Inr a"
    and rd: "read_bytes w p = Inr b"
    and obj: "\<And>k r text v. generate_content w k r = Inr text \<Longrightarrow> gemini_extract w text = Inr v
                \<Longrightarrow> \<exists>d. v = PDict d"
  shows "\<exists>st4 t. run_single_benchmark w st p i = (st4, Inr t)"
proof -
  from method1_returns[OF con rd] obtain st1 m1 where
    m1: "method1_manual_input_with_ai w st p = (st1, Inr m1)" by blast
  from method2_returns[OF rd] obtain st2 m2 where
    m2: "method2_ai_followup w st1 p = (st2, Inr m2)" by blast
  from get_ground_truth_returns[OF con] obtain st3 gt where
    gt: "get_ground_truth w st2 = (st3, Inr gt)" by blast
  let ?req = "evaluation_request w m1 m2 gt"
  have "\<exists>d. snd (evaluate_accuracy w st3 m1 m2 gt) = PDict d"
  proof (cases "generate_content w (length (calls st3)) ?req")
    case (Inl e)
    then show ?thesis by (simp add: evaluate_accuracy_result evaluation_failed_def)
  next
    case (Inr body)
    note reply = this
    show ?thesis
    proof (cases "gemini_extract w body")
      case (Inl e)
      with reply show ?thesis by (simp add: evaluate_accuracy_result evaluation_failed_def)
    next
      case (Inr v)
      from obj[OF reply Inr] obtain d where "v = PDict d" by blast
      with Inr reply show ?thesis by (simp add: evaluate_accuracy_result)
    qed
  qed
  then obtain d where d: "snd (evaluate_accuracy w st3 m1 m2 gt) = PDict d" by blast
  obtain st4 where ev: "evaluate_accuracy w st3 m1 m2 gt = (st4, PDict d)"
    using d by (cases "evaluate_accuracy w st3 m1 m2 gt") simp
  show ?thesis
    using ex m1 m2 gt ev by (simp add: run_single_benchmark_def display_results_def)
qed

lemma scripted_sel [simp]:
  "path_exists (scripted f a r l) = f"
  "read_bytes (scripted f a r l) = (\<lambda>p. Inr [])"
  "console (scripted f a r l) = a"
  "generate_content (scripted f a r l) = r"
  "json_loads (scripted f a r l) = l"
  by (simp_all add: scripted_def)

lemma obliging_extract: "gemini_extract (obliging f r) (str ''{}'') = Inr (PDict [])"
proof -
  have "gemini_unfence (strip [123, 125]) = [123, 125]"
    by (simp add: gemini_unfence_def strip_def isspace_def contains_def find_str_def fence_json_eq)
  then show ?thesis
    by (simp add: gemini_extract_def obliging_def loads_from_def str_texts)
qed

lemma obliging_objects:
  assumes "gemini_extract (obliging f r) body = Inr v"
  shows "\<exists>d. v = PDict d"
  using assms
  by (auto simp: gemini_extract_def obliging_def loads_from_def split: option.splits if_splits)

lemma obliging_completes:
  assumes "f p"
  shows "\<exists>st4 t. run_single_benchmark (obliging f r) st p i = (st4, Inr t)"
proof (rule run_single_benchmark_completes[where b = "[]"])
  show "path_exists (obliging f r) p" using assms by (simp add: obliging_def)
  show "\<exists>a. console (obliging f r) k = Inr a" for k by (simp add: obliging_def)
  show "read_bytes (obliging f r) p = Inr []" by (simp add: obliging_def)
  show "\<exists>d. v = PDict d" if "gemini_extract (obliging f r) body = Inr v" for body v
    using that by (rule obliging_objects)
qed

lemma run_trials_zero_scores:
  assumes ev: "\<And>st p i st1 t. run_single_benchmark w st p i = (st1, Inr t) \<Longrightarrow> evaluation t = PDict []"
    and "run_trials w st ps (rs, s1, s2) = (st', rs', s1', s2')"
    and "s1 = replicate (length rs) (PInt 0)" "s2 = replicate (length rs) (PInt 0)"
  shows "s1' = replicate (length rs') (PInt 0) \<and> s2' = replicate (length rs') (PInt 0)"
  using assms(2-)
proof (induction ps arbitrary: st rs s1 s2)
  case Nil
  then show ?case by auto
next
  case (Cons x ps)
  obtain i p where x: "x = (i, p)" by (cases x)
  obtain st1 r where r: "run_single_benchmark w st p i = (st1, r)"
    by (cases "run_single_benchmark w st p i")
  show ?case
  proof (cases r)
    case (Inl e)
    with Cons.prems x r have "run_trials w st1 ps (rs, s1, s2) = (st', rs', s1', s2')" by simp
    from Cons.IH[OF this Cons.prems(2,3)] show ?thesis .
  next
    case (Inr t)
    from ev[OF r[unfolded Inr]] have e: "evaluation t = PDict []" .
    from completed[OF r[unfolded Inr], of ps rs s1 s2] Cons.prems(1) x e
    have step: "run_trials w st1 ps (rs @ [t], s1 @ [PInt 0], s2 @ [PInt 0]) = (st', rs', s1', s2')"
      by (simp add: dget_def)
    show ?thesis
      by (rule Cons.IH[OF step]) (simp_all add: Cons.prems(2,3) replicate_append_same)
  qed
qed

lemma average_zeros:
  "average w (replicate n (PInt 0)) = Inr (if n = 0 then NInt 0 else NFloat (Finite 0))"
proof (cases "n = 0")
  case True
  then show ?thesis by (simp add: average_empty)
next
  case False
  have r: "replicate n (PInt 0) = map PInt (replicate n 0)" by simp
  have z: "sum_list (replicate n (0::int)) = 0" by (induction n) simp_all
  from False have "replicate n (0::int) \<noteq> []" by simp
  from average_ints[OF this, of w] False show ?thesis
    unfolding r by (simp add: z int_truediv_def)
qed

lemma one_missing_evaluation:
  assumes "run_single_benchmark one_missing st p i = (st1, Inr t)"
  shows "evaluation t = PDict []"
proof -
  from run_single_benchmark_evaluation[OF assms] obtain st3 where
    "evaluation t = snd (evaluate_accuracy one_missing st3 (method1_result t) (method2_result t)
        (ground_truth t))" by blast
  moreover have "generate_content one_missing k q = Inr (str ''{}'')" for k q
    by (simp add: one_missing_def obliging_def)
  moreover have "gemini_extract one_missing (str ''{}'') = Inr (PDict [])"
    unfolding one_missing_def by (rule obliging_extract)
  ultimately show ?thesis by (simp add: evaluate_accuracy_result)
qed

lemma one_missing_paths:
  "filter (path_exists one_missing) [str ''a'', str ''b'', str ''c'', str ''d'', str ''e''] =
     [str ''a'', str ''b'', str ''d'', str ''e'']"
  by (simp add: one_missing_def obliging_def str_def)

lemma one_missing_run:
  "\<exists>st' res. run_full_benchmark one_missing fresh
       [str ''a'', str ''b'', str ''c'', str ''d'', str ''e''] = (st', Inr res)"
proof -
  let ?ps = "[str ''a'', str ''b'', str ''c'', str ''d'', str ''e'']"
  obtain st1 rs s1 s2 where
    loop: "run_trials one_missing fresh (enumerate_from ?ps 1) ([], [], []) = (st1, rs, s1, s2)"
    by (cases "run_trials one_missing fresh (enumerate_from ?ps 1) ([], [], [])") auto
  from run_trials_zero_scores[OF one_missing_evaluation loop]
  have s: "s1 = replicate (length rs) (PInt 0)" "s2 = replicate (length rs) (PInt 0)" by simp_all
  obtain a where a: "average one_missing (replicate (length rs) (PInt 0)) = Inr a"
    by (simp add: average_zeros)
  have "run_full_benchmark one_missing fresh ?ps =
     (st1, Inr \<lparr>benchmark_summary =
               \<lparr>total_tests = length rs, method1_average = a, method2_average = a,
                method1_scores = s1, method2_scores = s2, winner = overall_winner a a\<rparr>,
             detailed_results = rs\<rparr>)"
    unfolding run_full_benchmark_def loop
    by (simp add: a display_final_summary_def s)
  then show ?thesis by blast
qed

text \<open>
  The cases the handler of \<open>evaluate_accuracy\<close> covers: when the call of the judge
  raises, or the extraction of its reply raises, the result is the record with both
  accuracies \<open>0\<close> and the winner \<open>error\<close>, and the loop counts the trial.
\<close>

lemma raised_comparison_scores_zero:
  "((generate_content w (length (calls st)) (evaluation_request w m1 m2 gt) = Inl e \<or>
     (\<exists>reply. generate_content w (length (calls st)) (evaluation_request w m1 m2 gt) = Inr reply \<and>
              gemini_extract w reply = Inl e)) \<longrightarrow>
      snd (evaluate_accuracy w st m1 m2 gt) = evaluation_failed e) \<and>
   method_get w (evaluation_failed e) (str ''method1_accuracy'') (PInt 0) = Inr (PInt 0) \<and>
   method_get w (evaluation_failed e) (str ''method2_accuracy'') (PInt 0) = Inr (PInt 0) \<and>
   method_get w (evaluation_failed e) (str ''winner'') PNone = Inr (PStr (str ''error'')) \<and>
   (path_exists w p \<and>
    method1_manual_input_with_ai w st0 p = (st1, Inr m1) \<and>
    method2_ai_followup w st1 p = (st2, Inr m2) \<and>
    get_ground_truth w st2 = (st, Inr gt) \<and>
    snd (evaluate_accuracy w st m1 m2 gt) = evaluation_failed e \<longrightarrow>
      run_trials w st0 ((i, p) # rest) (rs, s1, s2) =
      run_trials w (st\<lparr>calls := calls st @ [evaluation_request w m1 m2 gt]\<rparr>) rest
        (rs @ [\<lparr>test_number = i, image_path = p, method1_result = m1, method2_result = m2,
                ground_truth = gt, evaluation = evaluation_failed e\<rparr>],
         s1 @ [PInt 0], s2 @ [PInt 0]))"
proof (intro conjI impI)
  assume "generate_content w (length (calls st)) (evaluation_request w m1 m2 gt) = Inl e \<or>
     (\<exists>reply. generate_content w (length (calls st)) (evaluation_request w m1 m2 gt) = Inr reply \<and>
              gemini_extract w reply = Inl e)"
  then show "snd (evaluate_accuracy w st m1 m2 gt) = evaluation_failed e"
    by (auto simp: evaluate_accuracy_result)
next
  assume "path_exists w p \<and>
    method1_manual_input_with_ai w st0 p = (st1, Inr m1) \<and>
    method2_ai_followup w st1 p = (st2, Inr m2) \<and>
    get_ground_truth w st2 = (st, Inr gt) \<and>
    snd (evaluate_accuracy w st m1 m2 gt) = evaluation_failed e"
  then show "run_trials w st0 ((i, p) # rest) (rs, s1, s2) =
      run_trials w (st\<lparr>calls := calls st @ [evaluation_request w m1 m2 gt]\<rparr>) rest
        (rs @ [\<lparr>test_number = i, image_path = p, method1_result = m1, method2_result = m2,
                ground_truth = gt, evaluation = evaluation_failed e\<rparr>],
         s1 @ [PInt 0], s2 @ [PInt 0])"
    using failed_evaluation_counted by blast
qed (rule evaluation_failed_scores)+

lemma failing_judge_counted:
  "\<exists>st t. run_trials failing_judge fresh [(1, str ''a'')] ([], [], []) =
             (st, [t], [PInt 0], [PInt 0]) \<and>
           evaluation t = evaluation_failed (Exc OtherException (str ''quota exceeded'')) \<and>
           test_number t = 1 \<and> image_path t = str ''a''"
proof -
  let ?w = failing_judge
  let ?e = "Exc OtherException (str ''quota exceeded'')"
  have con: "\<exists>a. console ?w k = Inr a" for k by (simp add: failing_judge_def obliging_def)
  have rd: "read_bytes ?w (str ''a'') = Inr []" by (simp add: failing_judge_def obliging_def)
  have ex: "path_exists ?w (str ''a'')" by (simp add: failing_judge_def obliging_def)
  from method1_returns[OF con rd] obtain st1 m1 where
    m1: "method1_manual_input_with_ai ?w fresh (str ''a'') = (st1, Inr m1)" by blast
  from method2_returns[OF rd] obtain st2 m2 where
    m2: "method2_ai_followup ?w st1 (str ''a'') = (st2, Inr m2)" by blast
  from get_ground_truth_returns[OF con] obtain st3 gt where
    gt: "get_ground_truth ?w st2 = (st3, Inr gt)" by blast
  have judge: "generate_content ?w (length (calls st3)) (evaluation_request ?w m1 m2 gt) = Inl ?e"
    by (simp add: failing_judge_def obliging_def evaluation_request_def)
  note inst = raised_comparison_scores_zero[of ?w st3 m1 m2 gt ?e "str ''a''" fresh st1 st2 1 "[]" "[]" "[]" "[]"]
  from inst judge have ev: "snd (evaluate_accuracy ?w st3 m1 m2 gt) = evaluation_failed ?e"
    by blast
  with inst ex m1 m2 gt
  have "run_trials ?w fresh [(1, str ''a'')] ([], [], []) =
      run_trials ?w (st3\<lparr>calls := calls st3 @ [evaluation_request ?w m1 m2 gt]\<rparr>) []
        ([] @ [\<lparr>test_number = 1, image_path = str ''a'', method1_result = m1, method2_result = m2,
                ground_truth = gt, evaluation = evaluation_failed ?e\<rparr>],
         [] @ [PInt 0], [] @ [PInt 0])"
    by blast
  then show ?thesis by simp
qed
section \<open>Runs with a scripted judge: auxiliary facts\<close>

lemma method1_try_calls:
  "calls (fst (method1_try w st p b a1 a2 a3)) = calls st @ [manual_request w p b a1 a2 a3]"
  by (simp add: method1_try_def call_model_def split: sum.splits pyval.splits)

lemma method1_calls:
  assumes con: "\<And>k. \<exists>a. console w k = Inr a" and rd: "read_bytes w p = Inr b"
  shows "\<exists>st1 m1. method1_manual_input_with_ai w st p = (st1, Inr m1) \<and>
           length (calls st1) = Suc (length (calls st))"
proof -
  from con obtain a1 where a1: "console w (reads st) = Inr a1" by blast
  from con obtain a2 where a2: "console w (Suc (reads st)) = Inr a2" by blast
  from con obtain a3 where a3: "console w (Suc (Suc (reads st))) = Inr a3" by blast
  let ?st3 = "st\<lparr>reads := Suc (Suc (Suc (reads st)))\<rparr>"
  obtain st4 r where t: "method1_try w ?st3 p b a1 a2 a3 = (st4, r)"
    by (cases "method1_try w ?st3 p b a1 a2 a3")
  from method1_try_calls[of w ?st3 p b a1 a2 a3] t
  have c: "length (calls st4) = Suc (length (calls st))" by simp
  show ?thesis
    using a1 a2 a3 rd t c
    by (cases r) (simp_all add: method1_manual_input_with_ai_def input_def encode_image_def)
qed

lemma method2_two_calls:
  assumes rd: "read_bytes w p = Inr b"
    and first: "generate_content w (length (calls st)) (followup_request w p b) = Inr reply"
    and obj: "gemini_extract w reply = Inr (PDict d)"
    and ans: "console w (reads st) = Inr answer"
  shows "\<exists>st2 m2. method2_ai_followup w st p = (st2, Inr m2) \<and>
           length (calls st2) = Suc (Suc (length (calls st)))"
proof -
  obtain r where r: "generate_content w (Suc (length (calls st))) (final_request w p b d answer) = r"
    by simp
  obtain st2 x where t: "method2_try w st p b = (st2, x)" by (cases "method2_try w st p b")
  have "calls (fst (method2_try w st p b)) =
      calls st @ [followup_request w p b, final_request w p b d answer]"
    using first obj ans r
    by (cases r) (simp_all add: method2_try_def call_model_def input_def
        split: sum.splits pyval.splits)
  with t have c: "length (calls st2) = Suc (Suc (length (calls st)))" by simp
  show ?thesis using rd t c
    by (cases x) (simp_all add: method2_ai_followup_def encode_image_def)
qed

lemma get_ground_truth_calls:
  assumes con: "\<And>k. \<exists>a. console w k = Inr a"
  shows "\<exists>st1 gt. get_ground_truth w st = (st1, Inr gt) \<and> calls st1 = calls st"
proof -
  from con obtain a1 where a1: "console w (reads st) = Inr a1" by blast
  from con obtain a2 where a2: "console w (Suc (reads st)) = Inr a2" by blast
  from con obtain a3 where a3: "console w (Suc (Suc (reads st))) = Inr a3" by blast
  show ?thesis using a1 a2 a3 by (simp add: get_ground_truth_def input_def)
qed

lemma judged_extract_empty: "gemini_extract (judged v tb) (str ''{}'') = Inr (PDict [])"
proof -
  have "gemini_unfence (strip [123, 125]) = [123, 125]"
    by (simp add: gemini_unfence_def strip_def isspace_def contains_def find_str_def fence_json_eq)
  then show ?thesis
    by (simp add: gemini_extract_def judged_def loads_from_def str_texts)
qed

lemma judged_trial:
  assumes len: "length (calls st) = 4 * j"
  shows "\<exists>st4 m1 m2 gt. length (calls st4) = 4 * Suc j \<and>
     run_single_benchmark (judged v tb) st p i =
       (st4, case display_results (judged v tb) (verdict_of (judged v tb) (v j)) of
               Inl e \<Rightarrow> Inl e
             | Inr u \<Rightarrow> Inr \<lparr>test_number = i, image_path = p, method1_result = m1,
                            method2_result = m2, ground_truth = gt,
                            evaluation = verdict_of (judged v tb) (v j)\<rparr>)"
proof -
  let ?w = "judged v tb"
  have con: "\<exists>a. console ?w k = Inr a" for k by (simp add: judged_def)
  have rd: "read_bytes ?w p = Inr []" by (simp add: judged_def)
  have ex: "path_exists ?w p" by (simp add: judged_def)
  from method1_calls[OF con rd] obtain st1 m1 where
    m1: "method1_manual_input_with_ai ?w st p = (st1, Inr m1)"
    and c1: "length (calls st1) = Suc (length (calls st))" by blast
  have first: "generate_content ?w (length (calls st1)) (followup_request ?w p []) = Inr (str ''{}'')"
    by (simp add: judged_def followup_request_def)
  have ans: "console ?w (reads st1) = Inr (str ''seen'')" by (simp add: judged_def)
  from method2_two_calls[OF rd first judged_extract_empty ans] obtain st2 m2 where
    m2: "method2_ai_followup ?w st1 p = (st2, Inr m2)"
    and c2: "length (calls st2) = Suc (Suc (length (calls st1)))" by blast
  from get_ground_truth_calls[OF con] obtain st3 gt where
    gt: "get_ground_truth ?w st2 = (st3, Inr gt)" and c3: "calls st3 = calls st2" by blast
  from c1 c2 c3 len have k: "length (calls st3) = 4 * j + 3" by simp
  let ?req = "evaluation_request ?w m1 m2 gt"
  let ?st4 = "st3\<lparr>calls := calls st3 @ [?req]\<rparr>"
  have "(4 * j + 3) div 4 = j" by simp
  then have reply: "generate_content ?w (length (calls st3)) ?req = Inr (v j)"
    unfolding k by (simp add: judged_def evaluation_request_def)
  have ev: "evaluate_accuracy ?w st3 m1 m2 gt = (?st4, verdict_of ?w (v j))"
    by (simp add: evaluate_accuracy_result reply verdict_of_def)
  have "length (calls ?st4) = 4 * Suc j" using k by simp
  moreover have "run_single_benchmark ?w st p i =
       (?st4, case display_results ?w (verdict_of ?w (v j)) of
               Inl e \<Rightarrow> Inl e
             | Inr u \<Rightarrow> Inr \<lparr>test_number = i, image_path = p, method1_result = m1,
                            method2_result = m2, ground_truth = gt,
                            evaluation = verdict_of ?w (v j)\<rparr>)"
    using ex m1 m2 gt ev by (simp add: run_single_benchmark_def split: sum.splits)
  ultimately show ?thesis by blast
qed


lemma judged_all_aborted:
  assumes "length (calls st) = 4 * j"
    and obj: "\<And>k. \<exists>e. display_results (judged v tb) (verdict_of (judged v tb) (v k)) = Inl e"
  shows "\<exists>st'. run_trials (judged v tb) st ps acc = (st', acc)"
  using assms(1)
proof (induction ps arbitrary: st j)
  case Nil
  then show ?case by simp
next
  case (Cons x ps)
  obtain i p where x: "x = (i, p)" by (cases x)
  let ?w = "judged v tb"
  from obj[of j] obtain e where e: "display_results ?w (verdict_of ?w (v j)) = Inl e" by blast
  from judged_trial[OF Cons.prems, of v tb p i] obtain st4 where
    c: "length (calls st4) = 4 * Suc j"
    and r: "run_single_benchmark ?w st p i = (st4, Inl e)"
    by (auto simp: e)
  from aborted[OF r] have "run_trials ?w st (x # ps) acc = run_trials ?w st4 ps acc"
    unfolding x .
  with Cons.IH[OF c] show ?case by simp
qed

lemma plain_reply:
  assumes "t \<noteq> []" "\<not> isspace (hd t)" "\<not> isspace (last t)" "\<not> contains fence_json t"
  shows "gemini_extract w t = json_loads w t"
  using assms by (simp add: gemini_extract_def gemini_unfence_def strip_id)

lemma judged_loads: "json_loads (judged v tb) = loads_from ((str ''{}'', Inr (PDict [])) # tb)"
  by (simp add: judged_def)

lemma verdict_plain:
  assumes "t \<noteq> []" "\<not> isspace (hd t)" "\<not> isspace (last t)" "\<not> contains fence_json t"
    and "map_of ((str ''{}'', Inr (PDict [])) # tb) t = Some (Inr x)"
  shows "verdict_of (judged v tb) t = x"
  using assms(5) by (simp add: verdict_of_def plain_reply[OF assms(1-4)] judged_loads loads_from_def)










lemma fresh_calls: "length (calls fresh) = 4 * 0"
  by (simp add: fresh_def)






lemma listing_verdict: "verdict_of listing_judge (str ''[]'') = PList []"
  unfolding listing_judge_def
  by (rule verdict_plain)
     (simp_all add: str_def isspace_def contains_def find_str_def fence_json_eq)

lemma scripted_fault: "fault (scripted f a r l) t v = Exc t []"
  by (simp add: fault_def scripted_def)

lemma listing_display:
  "display_results listing_judge (PList []) = Inl (Exc AttributeError [])"
  by (simp add: display_results_def listing_judge_def judged_def scripted_fault)

lemma listing_evaluation:
  "snd (evaluate_accuracy listing_judge st m1 m2 gt) = PList []"
proof -
  have "generate_content listing_judge k (evaluation_request listing_judge m1 m2 gt) =
      Inr (str ''[]'')" for k
    by (simp add: listing_judge_def judged_def evaluation_request_def)
  then show ?thesis
    using listing_verdict by (simp add: evaluate_accuracy_result verdict_of_def)
qed

lemma listing_trial:
  "snd (run_single_benchmark listing_judge fresh (str ''a'') 1) = Inl (Exc AttributeError [])"
proof -
  from judged_trial[OF fresh_calls, of "\<lambda>j. str ''[]''" "[(str ''[]'', Inr (PList []))]"
      "str ''a''" 1, folded listing_judge_def]
  show ?thesis by (auto simp: listing_verdict listing_display)
qed

lemma listing_loop:
  "snd (run_trials listing_judge st0 ps acc) = acc" if "length (calls st0) = 4 * j"
proof -
  have "\<exists>e. display_results listing_judge (verdict_of listing_judge (str ''[]'')) = Inl e"
    by (simp add: listing_verdict listing_display)
  from judged_all_aborted[of st0 j "\<lambda>j. str ''[]''" "[(str ''[]'', Inr (PList []))]" ps acc,
      folded listing_judge_def, OF that this]
  show ?thesis by auto
qed

lemma listing_run:
  "map_sum id benchmark_summary (snd (run_full_benchmark listing_judge fresh five_paths)) =
     Inr \<lparr>total_tests = 0, method1_average = NInt 0, method2_average = NInt 0,
          method1_scores = [], method2_scores = [], winner = str ''tie''\<rparr>"
proof -
  obtain st' where
    loop: "run_trials listing_judge fresh (enumerate_from five_paths 1) ([], [], []) =
      (st', [], [], [])"
    using listing_loop[OF fresh_calls, of "enumerate_from five_paths 1" "([], [], [])"]
    by (cases "run_trials listing_judge fresh (enumerate_from five_paths 1) ([], [], [])") auto
  have len: "length five_paths = 5" by (simp add: five_paths_def)
  show ?thesis
    unfolding run_full_benchmark_def loop
    by (simp add: len average_empty display_final_summary_def overall_winner_def)
qed




lemma completed_paths:
  assumes all: "\<And>st p i. path_exists w p \<Longrightarrow> \<exists>st1 t. run_single_benchmark w st p i = (st1, Inr t)"
  shows "map (\<lambda>t. (test_number t, image_path t)) (completed_trials (trial_outcomes w st ps)) =
           filter (\<lambda>(i, p). path_exists w p) ps"
proof (induction ps arbitrary: st)
  case Nil
  then show ?case by simp
next
  case (Cons x ps)
  obtain i p where x: "x = (i, p)" by (cases x)
  show ?case
  proof (cases "path_exists w p")
    case False
    then have "run_single_benchmark w st p i =
        (st, Inl (Exc FileNotFoundError (str ''Image not found: '' @ p)))"
      by (simp add: run_single_benchmark_def)
    with False Cons.IH[of st] x show ?thesis by simp
  next
    case True
    from all[OF True] obtain st1 t where r: "run_single_benchmark w st p i = (st1, Inr t)"
      by blast
    from run_single_benchmark_Inr[OF r] have "test_number t = i" "image_path t = p" by simp_all
    with True Cons.IH[of st1] x r show ?thesis by simp
  qed
qed

lemma one_missing_trials:
  "filter (\<lambda>(i, p). path_exists one_missing p) (enumerate_from five_paths 1) =
     [(1, str ''a''), (2, str ''b''), (4, str ''d''), (5, str ''e'')]"
proof -
  have "enumerate_from five_paths 1 =
      [(1, str ''a''), (2, str ''b''), (3, str ''c''), (4, str ''d''), (5, str ''e'')]"
    unfolding five_paths_def by (rule enum5)
  then show ?thesis by (simp add: one_missing_def obliging_def str_def)
qed

lemma listing_model_extract: "gemini_extract listing_model (str ''[]'') = Inr (PList [])"
proof -
  have "gemini_extract listing_model (str ''[]'') = json_loads listing_model (str ''[]'')"
    by (rule plain_reply)
       (simp_all add: str_def isspace_def contains_def find_str_def fence_json_eq)
  then show ?thesis by (simp add: listing_model_def loads_from_def)
qed

lemma listing_model_method1:
  "snd (method1_manual_input_with_ai listing_model fresh (str ''a'')) =
     Inr (method1_except (Exc AttributeError []) (str ''seen'') (str ''seen'') (str ''seen''))"
  using listing_model_extract
  by (simp add: method1_manual_input_with_ai_def input_def encode_image_def method1_try_def
      call_model_def listing_model_def scripted_fault fresh_def)

lemma listing_model_method2:
  "snd (method2_ai_followup listing_model fresh (str ''a'')) =
     Inr (method2_except (Exc AttributeError []))"
  using listing_model_extract
  by (simp add: method2_ai_followup_def encode_image_def method2_try_def
      call_model_def listing_model_def scripted_fault fresh_def)
section \<open>Claims about the aggregator\<close>




text \<open>
  C8. With a list of image paths whose length is not 5, \<open>run_full_benchmark\<close> raises
  \<open>ValueError\<close> and leaves the state as it was: no model call is issued and nothing is
  read. With exactly 5 paths no \<open>ValueError\<close> comes out of it.
\<close>

theorem full_benchmark_requires_five_paths:
  "(length image_paths \<noteq> 5 \<longrightarrow>
      run_full_benchmark w st image_paths =
        (st, Inl (Exc ValueError (str ''Please provide exactly 5 image paths for the benchmark'')))) \<and>
   (length image_paths = 5 \<longrightarrow>
      (\<forall>e. snd (run_full_benchmark w st image_paths) = Inl e \<longrightarrow> exc_type_of e \<noteq> ValueError))"
  by (auto simp: run_full_benchmark_def split: prod.splits sum.splits
      dest!: average_error display_final_summary_error)

theorem full_benchmark_requires_five_paths_witness:
  "run_full_benchmark nothing_there fresh [[], [], [], []] =
     (fresh, Inl (Exc ValueError (str ''Please provide exactly 5 image paths for the benchmark''))) \<and>
   \<not> (\<exists>e. snd (run_full_benchmark nothing_there fresh [[], [], [], [], []]) = Inl e \<and>
            exc_type_of e = ValueError)"
  using full_benchmark_requires_five_paths[of "[[], [], [], []]" nothing_there fresh]
    full_benchmark_requires_five_paths[of "[[], [], [], [], []]" nothing_there fresh]
  by simp

section \<open>Claims about the extraction of a reply\<close>

text \<open>
  C3, as the specification states it: for every JSON payload, extracting the payload
  wrapped in a fenced block yields the record of the payload itself. It fails for a
  payload that contains three backticks inside a string: the Gemini sites cut the text
  at the first three backticks after the opening marker, and the single-pass site deletes
  every run of three backticks, so one site raises and the other returns a different
  record.
\<close>

theorem backticks_in_payload_counterexample:
  \<open>json_loads backtick_world backtick_payload = Inr (PDict [(str ''n'', PStr fence)]) \<and>
   json_loads backtick_world (strip backtick_payload) = json_loads backtick_world backtick_payload \<and>
   gemini_extract backtick_world (fenced_block backtick_payload) =
     Inl (Exc JSONDecodeError (str ''Unterminated string starting at: line 1 column 6 (char 5)'')) \<and>
   openai_extract backtick_world (fenced_block backtick_payload) = Inr (PDict [(str ''n'', PStr [])]) \<and>
   gemini_extract backtick_world (fenced_block backtick_payload) \<noteq>
     json_loads backtick_world backtick_payload \<and>
   openai_extract backtick_world (fenced_block backtick_payload) \<noteq>
     json_loads backtick_world backtick_payload\<close>
proof -
  have s: "strip backtick_payload = backtick_payload"
    by (rule strip_id) (simp_all add: backtick_payload_eq isspace_def)
  have l: "json_loads backtick_world = loads_from
         [(backtick_payload, Inr (PDict [(str ''n'', PStr fence)])),
          ([123, 34, 110, 34, 58, 34, 34, 125], Inr (PDict [(str ''n'', PStr [])])),
          ([123, 34, 110, 34, 58, 34],
             Inl (Exc JSONDecodeError
                   (str ''Unterminated string starting at: line 1 column 6 (char 5)'')))]"
    by (simp add: backtick_world_def scripted_def str_texts)
  have g: "gemini_extract backtick_world (fenced_block backtick_payload) =
     Inl (Exc JSONDecodeError (str ''Unterminated string starting at: line 1 column 6 (char 5)''))"
    unfolding gemini_extract_def strip_fenced backtick_gemini_text l
    by (simp add: loads_from_def backtick_payload_eq)
  have a: "openai_extract backtick_world (fenced_block backtick_payload) =
      Inr (PDict [(str ''n'', PStr [])])"
    unfolding openai_extract_def strip_fenced backtick_openai_text l
    by (simp add: loads_from_def backtick_payload_eq)
  have p: "json_loads backtick_world backtick_payload = Inr (PDict [(str ''n'', PStr fence)])"
    unfolding l by (simp add: loads_from_def)
  show ?thesis unfolding g a s p by (simp add: fence_eq)
qed

text \<open>
  C3, amended: for every payload that does not itself contain three backticks, and that
  \<open>json.loads\<close> reads the same with and without the whitespace around it, both
  extraction sites recover from the fenced block what \<open>json.loads\<close> gives for the payload;
  and a reply without the opening marker (anywhere in the text for the Gemini sites, at
  the start of the text for the single-pass site) goes to \<open>json.loads\<close> unchanged but for
  the stripping of whitespace.
\<close>

theorem fence_stripping_recovers_payload:
  "(\<not> contains fence p \<and> json_loads w (strip p) = json_loads w p \<longrightarrow>
      gemini_extract w (fenced_block p) = json_loads w p \<and>
      openai_extract w (fenced_block p) = json_loads w p) \<and>
   (\<not> contains fence_json (strip p) \<and> json_loads w (strip p) = json_loads w p \<longrightarrow>
      gemini_extract w p = json_loads w p) \<and>
   (\<not> startswith (strip p) fence_json \<and> json_loads w (strip p) = json_loads w p \<longrightarrow>
      openai_extract w p = json_loads w p)"
proof (intro conjI impI)
  assume a: "\<not> contains fence p \<and> json_loads w (strip p) = json_loads w p"
  then show "gemini_extract w (fenced_block p) = json_loads w p"
    by (simp add: gemini_extract_def strip_fenced gemini_unfence_fenced)
  from a show "openai_extract w (fenced_block p) = json_loads w p"
    by (simp add: openai_extract_def strip_fenced openai_unfence_fenced)
next
  assume "\<not> contains fence_json (strip p) \<and> json_loads w (strip p) = json_loads w p"
  then show "gemini_extract w p = json_loads w p"
    by (simp add: gemini_extract_def gemini_unfence_def)
next
  assume "\<not> startswith (strip p) fence_json \<and> json_loads w (strip p) = json_loads w p"
  then show "openai_extract w p = json_loads w p"
    by (simp add: openai_extract_def openai_unfence_def)
qed

theorem fence_stripping_recovers_payload_witness:
  \<open>gemini_extract empty_object_world (fenced_block (str ''{}'')) = Inr (PDict []) \<and>
   openai_extract empty_object_world (fenced_block (str ''{}'')) = Inr (PDict []) \<and>
   gemini_extract empty_object_world (str ''{}'') = Inr (PDict []) \<and>
   openai_extract empty_object_world (str ''{}'') = Inr (PDict [])\<close>
proof -
  have s: "strip [123, 125] = [123, 125]" by (simp add: strip_def isspace_def)
  have l: "json_loads empty_object_world [123, 125] = Inr (PDict [])"
    by (simp add: empty_object_world_def scripted_def loads_from_def str_texts)
  have n: "\<not> contains fence [123, 125]" "\<not> contains fence_json [123, 125]"
    "\<not> startswith [123, 125] fence_json"
    by (simp_all add: contains_def find_str_def fence_eq fence_json_eq startswith_def)
  show ?thesis
    using fence_stripping_recovers_payload[of "str ''{}''" empty_object_world] s l n by (simp add: str_texts)
qed

text \<open>
  C10. When the stripped reply contains the opening marker and \<open>find\<close> returns \<open>-1\<close> for
  the closing marker, the Gemini extraction parses the text after the opening marker
  without its last character (and stripped of whitespace): the sentinel is used as the
  end of the slice. The three sites \<open>method1_try\<close>, \<open>method2_try\<close> and
  \<open>evaluate_accuracy\<close> all read their reply through \<open>gemini_extract\<close>.
\<close>

theorem unclosed_fence_drops_last_character:
  assumes "contains fence_json (strip reply)"
    and "find_str fence (strip reply) (nat (find_str fence_json (strip reply) 0 + 7)) = -1"
  shows "gemini_extract w reply =
     json_loads w (strip (butlast
       (drop (nat (find_str fence_json (strip reply) 0 + 7)) (strip reply))))"
  using gemini_unfence_unclosed[OF assms] by (simp add: gemini_extract_def)

theorem unclosed_fence_drops_last_character_witness:
  \<open>gemini_extract empty_object_world (str ''```json{}'') = json_loads empty_object_world (str ''{'') \<and>
   json_loads empty_object_world (str ''{'') =
     Inl (Exc JSONDecodeError
       (str ''Expecting property name enclosed in double quotes: line 1 column 2 (char 1)''))\<close>
proof -
  let ?t = "[96, 96, 96, 106, 115, 111, 110, 123, 125] :: pystr"
  have s: "strip ?t = ?t" by (simp add: strip_def isspace_def)
  have f: "find_str fence_json ?t 0 = 0" by (simp add: find_str_def fence_json_eq)
  have c: "contains fence_json ?t" by (simp add: contains_def f)
  have u: "find_str fence ?t 7 = -1" by (simp add: find_str_def fence_eq)
  have b: "strip (butlast (drop 7 ?t)) = [123]" by (simp add: strip_def isspace_def)
  have l: "json_loads empty_object_world [123] =
     Inl (Exc JSONDecodeError
       (str ''Expecting property name enclosed in double quotes: line 1 column 2 (char 1)''))"
    by (simp add: empty_object_world_def scripted_def loads_from_def str_texts)
  show ?thesis
    using unclosed_fence_drops_last_character[of "str ''```json{}''" empty_object_world] s f c u b l by (simp add: str_texts)
qed
section \<open>Claims about trials\<close>

text \<open>
  C9. A trial whose image path does not exist raises \<open>FileNotFoundError\<close> before anything
  is read or sent: its outcome is that exception, the state is the one before the
  trial, and the loop goes on with the remaining paths from that state. In the summary
  of a run, \<open>detailed_results\<close> holds exactly the trials that completed, in order (the
  outcomes of \<open>run_single_benchmark\<close> that are results), \<open>total_tests\<close> is their number,
  and each of them has an existing image. No \<open>FileNotFoundError\<close> comes out of
  \<open>run_full_benchmark\<close>. A run of five paths of which the third is missing reports
  four tests, the trials 1, 2, 4 and 5.
\<close>

theorem missing_image_aborts_one_trial:
  "(\<not> path_exists w p \<longrightarrow>
      run_single_benchmark w st p i =
        (st, Inl (Exc FileNotFoundError (str ''Image not found: '' @ p))) \<and>
      trial_outcomes w st ((i, p) # rest) =
        Inl (Exc FileNotFoundError (str ''Image not found: '' @ p)) # trial_outcomes w st rest \<and>
      run_trials w st ((i, p) # rest) acc = run_trials w st rest acc) \<and>
   (run_full_benchmark w st0 image_paths = (st', Inr res) \<longrightarrow>
      detailed_results res =
        completed_trials (trial_outcomes w st0 (enumerate_from image_paths 1)) \<and>
      total_tests (benchmark_summary res) =
        length (completed_trials (trial_outcomes w st0 (enumerate_from image_paths 1))) \<and>
      (\<forall>t \<in> set (detailed_results res). path_exists w (image_path t))) \<and>
   (\<forall>e. snd (run_full_benchmark w st0 image_paths) = Inl e \<longrightarrow>
        exc_type_of e \<noteq> FileNotFoundError)"
proof (intro conjI impI allI)
  assume gone: "\<not> path_exists w p"
  then show r: "run_single_benchmark w st p i =
      (st, Inl (Exc FileNotFoundError (str ''Image not found: '' @ p)))"
    by (simp add: run_single_benchmark_def)
  then show "trial_outcomes w st ((i, p) # rest) =
      Inl (Exc FileNotFoundError (str ''Image not found: '' @ p)) # trial_outcomes w st rest"
    by simp
  from gone show "run_trials w st ((i, p) # rest) acc = run_trials w st rest acc"
    by (rule missing)
next
  assume full: "run_full_benchmark w st0 image_paths = (st', Inr res)"
  from run_full_benchmark_Inr[OF full] obtain st1 rs s1 s2 a1 a2 where
    loop: "run_trials w st0 (enumerate_from image_paths 1) ([], [], []) = (st1, rs, s1, s2)"
    and res: "res = \<lparr>benchmark_summary =
               \<lparr>total_tests = length rs, method1_average = a1, method2_average = a2,
                method1_scores = s1, method2_scores = s2, winner = overall_winner a1 a2\<rparr>,
             detailed_results = rs\<rparr>"
    by blast
  from run_trials_outcomes[OF loop]
  have out: "rs = completed_trials (trial_outcomes w st0 (enumerate_from image_paths 1))" by simp
  from out show "detailed_results res =
      completed_trials (trial_outcomes w st0 (enumerate_from image_paths 1))"
    by (simp add: res)
  from out show "total_tests (benchmark_summary res) =
      length (completed_trials (trial_outcomes w st0 (enumerate_from image_paths 1)))"
    by (simp add: res)
  show "\<forall>t \<in> set (detailed_results res). path_exists w (image_path t)"
    unfolding res using out completed_trials_exist by auto
next
  fix e
  assume "snd (run_full_benchmark w st0 image_paths) = Inl e"
  then show "exc_type_of e \<noteq> FileNotFoundError"
    by (auto simp: run_full_benchmark_def split: if_splits prod.splits sum.splits
        dest!: average_error display_final_summary_error)
qed

theorem missing_image_aborts_one_trial_witness:
  "\<exists>st' res.
     run_full_benchmark one_missing fresh five_paths = (st', Inr res) \<and>
     total_tests (benchmark_summary res) = 4 \<and>
     map (\<lambda>t. (test_number t, image_path t)) (detailed_results res) =
       [(1, str ''a''), (2, str ''b''), (4, str ''d''), (5, str ''e'')] \<and>
     run_single_benchmark one_missing fresh (str ''c'') 3 =
       (fresh, Inl (Exc FileNotFoundError (str ''Image not found: '' @ str ''c'')))"
proof -
  from one_missing_run obtain st' res where
    full: "run_full_benchmark one_missing fresh five_paths = (st', Inr res)"
    unfolding five_paths_def by blast
  have all: "\<And>s q n. path_exists one_missing q \<Longrightarrow>
      \<exists>s1 t. run_single_benchmark one_missing s q n = (s1, Inr t)"
    unfolding one_missing_def using obliging_completes by (simp add: obliging_def)
  have gone: "\<not> path_exists one_missing (str ''c'')"
    by (simp add: one_missing_def obliging_def)
  note inst = missing_image_aborts_one_trial[of one_missing "str ''c''" fresh 3 "[]" "([], [], [])"
      fresh five_paths st' res]
  from inst full have
    d: "detailed_results res =
      completed_trials (trial_outcomes one_missing fresh (enumerate_from five_paths 1))"
    and n: "total_tests (benchmark_summary res) =
      length (completed_trials (trial_outcomes one_missing fresh (enumerate_from five_paths 1)))"
    by blast+
  from inst gone have c: "run_single_benchmark one_missing fresh (str ''c'') 3 =
       (fresh, Inl (Exc FileNotFoundError (str ''Image not found: '' @ str ''c'')))"
    by blast
  from completed_paths[of one_missing fresh "enumerate_from five_paths 1", OF all]
  have p: "map (\<lambda>t. (test_number t, image_path t))
        (completed_trials (trial_outcomes one_missing fresh (enumerate_from five_paths 1))) =
      [(1, str ''a''), (2, str ''b''), (4, str ''d''), (5, str ''e'')]"
    by (simp only: one_missing_trials)
  from p[THEN arg_cong, of length] n have "total_tests (benchmark_summary res) = 4" by simp
  with full d p c show ?thesis by auto
qed

text \<open>
  C5. The handler of \<open>evaluate_accuracy\<close> gives the record with both accuracies \<open>0\<close> and
  the winner \<open>error\<close> for every exception raised in its \<open>try\<close>, and a trial with that
  record is counted. But the \<open>try\<close> returns whatever \<open>json.loads\<close> gives, and a reply
  of the judge that is valid JSON without being an object (the empty array \<open>[]\<close>) is
  not an exception there: \<open>evaluate_accuracy\<close> returns the list, \<open>_display_results\<close>
  raises \<open>AttributeError\<close> on its \<open>.get\<close>, and the loop drops the trial, so that a run of
  five such trials reports no test at all and no score. The two methods read their
  parsed reply with \<open>.get\<close> inside their own \<open>try\<close>, so that the same reply given to
  them is turned into the error record of their handler.
\<close>

theorem verdict_not_an_object_discards_trial:
  "snd (evaluate_accuracy listing_judge fresh [] [] []) = PList [] \<and>
   snd (run_single_benchmark listing_judge fresh (str ''a'') 1) =
     Inl (Exc AttributeError []) \<and>
   snd (run_trials listing_judge fresh [(1, str ''a'')] ([], [], [])) = ([], [], []) \<and>
   map_sum id benchmark_summary (snd (run_full_benchmark listing_judge fresh five_paths)) =
     Inr \<lparr>total_tests = 0, method1_average = NInt 0, method2_average = NInt 0,
          method1_scores = [], method2_scores = [], winner = str ''tie''\<rparr> \<and>
   snd (method1_manual_input_with_ai listing_model fresh (str ''a'')) =
     Inr (method1_except (Exc AttributeError []) (str ''seen'') (str ''seen'') (str ''seen'')) \<and>
   snd (method2_ai_followup listing_model fresh (str ''a'')) =
     Inr (method2_except (Exc AttributeError []))"
  using listing_evaluation[of fresh "[]" "[]" "[]"] listing_trial
    listing_loop[OF fresh_calls, of "[(1, str ''a'')]" "([], [], [])"] listing_run
    listing_model_method1 listing_model_method2
  by simp

text \<open>
  C6. In a run of method 2 in which the image is read, the first call replies, the
  extraction of that reply gives a dictionary and the console supplies an answer, the
  run sends exactly two requests, and the prompt of the second contains the follow-up
  question of the first reply (as \<open>str()\<close> prints it, the empty text when the key is
  absent; the string itself when it is a string) and the exact answer.
\<close>

theorem final_prompt_carries_question_and_answer:
  assumes "read_bytes w p = Inr b"
    and "generate_content w (length (calls st)) (followup_request w p b) = Inr reply"
    and "gemini_extract w reply = Inr (PDict d)"
    and "console w (reads st) = Inr answer"
  shows "calls (fst (method2_ai_followup w st p)) =
           calls st @ [followup_request w p b, final_request w p b d answer] \<and>
         prompt (final_request w p b d answer) =
           final_prompt (fmt w (dget d (str ''follow_up_question'') (PStr []))) answer \<and>
         contains (fmt w (dget d (str ''follow_up_question'') (PStr [])))
           (prompt (final_request w p b d answer)) \<and>
         contains answer (prompt (final_request w p b d answer)) \<and>
         (\<forall>q. map_of d (str ''follow_up_question'') = Some (PStr q) \<longrightarrow>
              contains q (prompt (final_request w p b d answer)))"
proof -
  let ?st2 = "st\<lparr>calls := calls st @ [followup_request w p b], reads := Suc (reads st)\<rparr>"
  let ?st3 = "?st2\<lparr>calls := calls ?st2 @ [final_request w p b d answer]\<rparr>"
  obtain r where r: "generate_content w (Suc (length (calls st))) (final_request w p b d answer) = r"
    by simp
  have tried: "fst (method2_try w st p b) = ?st3"
    using assms(2-4) r
    by (cases r) (simp_all add: method2_try_def call_model_def input_def
        split: sum.splits pyval.splits)
  have "fst (method2_ai_followup w st p) = fst (method2_try w st p b)"
    using assms(1)
    by (simp add: method2_ai_followup_def encode_image_def split: prod.splits sum.splits)
  with tried have c: "calls (fst (method2_ai_followup w st p)) =
      calls st @ [followup_request w p b, final_request w p b d answer]" by simp
  have pr: "prompt (final_request w p b d answer) =
      final_prompt (fmt w (dget d (str ''follow_up_question'') (PStr []))) answer"
    by (simp add: final_request_def)
  show ?thesis
    using c pr final_prompt_contains
    by (auto simp: dget_def fmt_def)
qed

theorem final_prompt_carries_question_and_answer_witness:
  \<open>length (calls (fst (method2_ai_followup clarifying fresh (str ''a'')))) = 2 \<and>
   contains (str ''Where?'')
     (prompt (last (calls (fst (method2_ai_followup clarifying fresh (str ''a'')))))) \<and>
   contains (str ''metal shard visible near conveyor belt, west wall'')
     (prompt (last (calls (fst (method2_ai_followup clarifying fresh (str ''a''))))))\<close>
proof -
  let ?reply = \<open>str ''{"follow_up_question":"Where?"}''\<close>
  let ?d = "[(str ''follow_up_question'', PStr (str ''Where?''))]"
  let ?a = "str ''metal shard visible near conveyor belt, west wall''"
  have s: "strip ?reply = ?reply"
    by (rule strip_id) (simp_all add: str_def isspace_def)
  have "\<not> contains fence_json ?reply"
    by (simp add: contains_def find_str_def fence_json_eq str_def)
  with s have u: "gemini_unfence (strip ?reply) = ?reply" by (simp add: gemini_unfence_def)
  have x: "gemini_extract clarifying ?reply = Inr (PDict ?d)"
    unfolding gemini_extract_def u by (simp add: clarifying_def loads_from_def)
  have h: "read_bytes clarifying (str ''a'') = Inr []"
    "generate_content clarifying (length (calls fresh)) (followup_request clarifying (str ''a'') [])
       = Inr ?reply"
    "console clarifying (reads fresh) = Inr ?a"
    by (simp_all add: clarifying_def)
  let ?run = "fst (method2_ai_followup clarifying fresh (str ''a''))"
  let ?final = "final_request clarifying (str ''a'') [] ?d ?a"
  note inst = final_prompt_carries_question_and_answer[OF h(1,2) x h(3)]
  from inst have c: "calls ?run = calls fresh @ [followup_request clarifying (str ''a'') [], ?final]"
    by (rule conjunct1)
  from inst have ans: "contains ?a (prompt ?final)" by blast
  from inst have qs: "\<forall>q. map_of ?d (str ''follow_up_question'') = Some (PStr q) \<longrightarrow>
      contains q (prompt ?final)" by blast
  have "map_of ?d (str ''follow_up_question'') = Some (PStr (str ''Where?''))" by simp
  with qs have qn: "contains (str ''Where?'') (prompt ?final)" by blast
  from c have len: "length (calls ?run) = 2" by (simp add: fresh_def)
  from c have lst: "last (calls ?run) = ?final" by (simp add: fresh_def)
  show ?thesis unfolding lst using len qn ans by (intro conjI)
qed

end
